theory Spec2Isabelle
  imports Main
begin

section \<open>JavaScript values\<close>

text \<open>
  The schema document is what the YAML library hands back: a tree of JavaScript
  values. An object is an association list in property order (the order
  \<^verbatim>\<open>Object.entries\<close> enumerates), an array is a list. Numbers are
  restricted to integers; the code only tests them for truthiness and prints them.

  A property read that finds no own property goes on to the prototype, so a read
  can return a built-in: a method of \<^verbatim>\<open>Object.prototype\<close> or
  \<^verbatim>\<open>Array.prototype\<close>, or, under the name \<^verbatim>\<open>__proto__\<close>, the prototype
  itself. \<open>JInherited p k\<close> is what an object whose prototype is \<open>p\<close> reads
  under a name \<open>k\<close> that \<open>p\<close> defines. The YAML library never puts one into a
  document; the localizer can put one into its copy of a record.
\<close>

datatype prototype = ObjectPrototype | ArrayPrototype

datatype jsval =
    JUndefined
  | JNull
  | JBool bool
  | JNum int
  | JStr string
  | JArr "jsval list"
  | JObj "(string \<times> jsval) list"
  | JInherited prototype string

text \<open>What JavaScript can throw. Everything but \<open>NonError\<close> is an instance of
  \<^verbatim>\<open>Error\<close>; \<open>LibraryError c m\<close> is an instance of any other subclass
  \<open>c\<close> of \<^verbatim>\<open>Error\<close> (the YAML library's or the fetch primitive's own).\<close>

datatype thrown =
    ConfigurationError string
  | TypeError string
  | Error string
  | LibraryError string string
  | NonError jsval

fun instanceof_Error :: "thrown \<Rightarrow> bool" where
  "instanceof_Error (NonError v) = False"
| "instanceof_Error e = True"

text \<open>Truthiness, as \<^verbatim>\<open>!x\<close> and \<^verbatim>\<open>x && y\<close> test it.\<close>

fun truthy :: "jsval \<Rightarrow> bool" where
  "truthy JUndefined = False"
| "truthy JNull = False"
| "truthy (JBool b) = b"
| "truthy (JNum n) = (n \<noteq> 0)"
| "truthy (JStr s) = (s \<noteq> [])"
| "truthy (JArr xs) = True"
| "truthy (JObj kvs) = True"
| "truthy (JInherited p k) = True"

text \<open>\<^verbatim>\<open>typeof x === "object"\<close>: true of objects, arrays and \<^verbatim>\<open>null\<close>,
  and of a prototype, but not of a method. \<^verbatim>\<open>Array.isArray\<close> is true of arrays
  and of \<^verbatim>\<open>Array.prototype\<close>.\<close>

fun typeof_object :: "jsval \<Rightarrow> bool" where
  "typeof_object JNull = True"
| "typeof_object (JArr xs) = True"
| "typeof_object (JObj kvs) = True"
| "typeof_object (JInherited p k) = (k = ''__proto__'')"
| "typeof_object v = False"

fun isArray :: "jsval \<Rightarrow> bool" where
  "isArray (JArr xs) = True"
| "isArray (JInherited p k) = (p = ArrayPrototype \<and> k = ''__proto__'')"
| "isArray v = False"

text \<open>Reading and writing a property of an object literal. A write to an existing
  key keeps the key's position; a new key goes last.\<close>

definition get_prop :: "(string \<times> jsval) list \<Rightarrow> string \<Rightarrow> jsval" where
  "get_prop kvs k = (case map_of kvs k of None \<Rightarrow> JUndefined | Some v \<Rightarrow> v)"

fun set_prop :: "(string \<times> jsval) list \<Rightarrow> string \<Rightarrow> jsval \<Rightarrow> (string \<times> jsval) list" where
  "set_prop [] k v = [(k, v)]"
| "set_prop ((k', v') # kvs) k v =
     (if k' = k then (k, v) # kvs else (k', v') # set_prop kvs k v)"

text \<open>Decimal numerals, for array indices used as property keys and for numbers
  printed in messages.\<close>

definition digit_char :: "nat \<Rightarrow> char" where
  "digit_char d = ''0123456789'' ! d"

fun show_nat :: "nat \<Rightarrow> string" where
  "show_nat n = (if n < 10 then [digit_char n] else show_nat (n div 10) @ [digit_char (n mod 10)])"

declare show_nat.simps [simp del]

definition show_int :: "int \<Rightarrow> string" where
  "show_int i = (if i < 0 then ''-'' @ show_nat (nat (- i)) else show_nat (nat i))"

text \<open>The names that every object finds on \<^verbatim>\<open>Object.prototype\<close>, and those
  that an array finds on \<^verbatim>\<open>Array.prototype\<close> (ECMAScript 2023).\<close>

definition Object_prototype_members :: "string list" where
  "Object_prototype_members =
     [''constructor'', ''hasOwnProperty'', ''isPrototypeOf'', ''propertyIsEnumerable'',
      ''toLocaleString'', ''toString'', ''valueOf'', ''__proto__'', ''__defineGetter__'',
      ''__defineSetter__'', ''__lookupGetter__'', ''__lookupSetter__'']"

definition Array_prototype_members :: "string list" where
  "Array_prototype_members =
     [''at'', ''concat'', ''constructor'', ''copyWithin'', ''entries'', ''every'', ''fill'',
      ''filter'', ''find'', ''findIndex'', ''findLast'', ''findLastIndex'', ''flat'',
      ''flatMap'', ''forEach'', ''includes'', ''indexOf'', ''join'', ''keys'',
      ''lastIndexOf'', ''map'', ''pop'', ''push'', ''reduce'', ''reduceRight'', ''reverse'',
      ''shift'', ''slice'', ''some'', ''sort'', ''splice'', ''toLocaleString'',
      ''toReversed'', ''toSorted'', ''toSpliced'', ''toString'', ''unshift'', ''values'',
      ''with'', ''__proto__'']"

text \<open>The prototype on which a name is found, going up the chain from \<open>p\<close>. The
  accessor \<^verbatim>\<open>__proto__\<close> yields the prototype of the object that is read, which
  for an array is \<^verbatim>\<open>Array.prototype\<close>.\<close>

definition found_on :: "prototype \<Rightarrow> string \<Rightarrow> prototype option" where
  "found_on p k =
     (case p of
        ObjectPrototype \<Rightarrow>
          (if k \<in> set Object_prototype_members then Some ObjectPrototype else None)
      | ArrayPrototype \<Rightarrow>
          (if k \<in> set Array_prototype_members then Some ArrayPrototype
           else if k \<in> set Object_prototype_members then Some ObjectPrototype
           else None))"

definition inherited :: "prototype \<Rightarrow> string \<Rightarrow> jsval" where
  "inherited p k = (case found_on p k of None \<Rightarrow> JUndefined | Some q \<Rightarrow> JInherited q k)"

text \<open>\<^verbatim>\<open>x[k]\<close> and \<^verbatim>\<open>x?.k\<close>. An object yields its own property, else what it
  inherits; an array yields the element at an index, its \<^verbatim>\<open>length\<close>, else what
  it inherits; a prototype yields its own members, and \<^verbatim>\<open>Object.prototype\<close> has
  no prototype. Every plain read in the code has a receiver that was tested truthy
  first, and \<^verbatim>\<open>?.\<close> yields \<^verbatim>\<open>undefined\<close> for \<^verbatim>\<open>null\<close> and
  \<^verbatim>\<open>undefined\<close>, so a read never throws. From a primitive or a method the code
  reads \<^verbatim>\<open>errorMessage\<close> only, which none of them has: every read under a
  language code has a receiver with \<^verbatim>\<open>typeof x === "object"\<close>.\<close>

fun js_get :: "jsval \<Rightarrow> string \<Rightarrow> jsval" where
  "js_get (JObj kvs) k =
     (case map_of kvs k of Some v \<Rightarrow> v | None \<Rightarrow> inherited ObjectPrototype k)"
| "js_get (JArr xs) k =
     (case find (\<lambda>i. show_nat i = k) [0..<length xs] of
        Some i \<Rightarrow> xs ! i
      | None \<Rightarrow> if k = ''length'' then JNum (int (length xs)) else inherited ArrayPrototype k)"
| "js_get (JInherited ObjectPrototype m) k =
     (if m = ''__proto__''
      then (if k = ''__proto__'' then JNull else inherited ObjectPrototype k)
      else JUndefined)"
| "js_get (JInherited ArrayPrototype m) k =
     (if m = ''__proto__''
      then (if k = ''length'' then JNum 0
            else if k = ''__proto__'' then JInherited ObjectPrototype ''__proto__''
            else inherited ArrayPrototype k)
      else JUndefined)"
| "js_get v k = JUndefined"

text \<open>A name under which a read finds an own property or nothing, whatever is
  read: not an array index, not \<^verbatim>\<open>length\<close>, not the name of a built-in.\<close>

definition plain_name :: "string \<Rightarrow> bool" where
  "plain_name k =
     (\<not> set k \<subseteq> set ''0123456789'' \<and> k \<noteq> ''length''
      \<and> k \<notin> set Object_prototype_members \<and> k \<notin> set Array_prototype_members)"

definition index_entries :: "jsval list \<Rightarrow> (string \<times> jsval) list" where
  "index_entries xs = zip (map show_nat [0..<length xs]) xs"

text \<open>The own enumerable properties that \<^verbatim>\<open>{ ...x }\<close> copies: all of an
  object's, the indexed elements of an array, the indexed characters of a string,
  nothing of any other value (\<^verbatim>\<open>null\<close> and \<^verbatim>\<open>undefined\<close> included).\<close>

fun spread :: "jsval \<Rightarrow> (string \<times> jsval) list" where
  "spread (JObj kvs) = kvs"
| "spread (JArr xs) = index_entries xs"
| "spread (JStr s) = index_entries (map (\<lambda>c. JStr [c]) s)"
| "spread v = []"

text \<open>\<^verbatim>\<open>Object.entries(x)\<close>: as the spread, except that \<^verbatim>\<open>null\<close> and
  \<^verbatim>\<open>undefined\<close> raise a \<^verbatim>\<open>TypeError\<close>.\<close>

fun Object_entries :: "jsval \<Rightarrow> thrown + (string \<times> jsval) list" where
  "Object_entries JUndefined = Inl (TypeError ''Cannot convert undefined or null to object'')"
| "Object_entries JNull = Inl (TypeError ''Cannot convert undefined or null to object'')"
| "Object_entries v = Inr (spread v)"

text \<open>String conversion, as a template literal \<^verbatim>\<open>`${x}`\<close> performs it. An array
  prints its elements separated by commas, \<^verbatim>\<open>null\<close> and \<^verbatim>\<open>undefined\<close>
  elements as nothing; a built-in method prints as native code under its name.\<close>

definition builtin_name :: "prototype \<Rightarrow> string \<Rightarrow> string" where
  "builtin_name p k =
     (if k = ''constructor''
      then (case p of ObjectPrototype \<Rightarrow> ''Object'' | ArrayPrototype \<Rightarrow> ''Array'')
      else k)"

fun join_comma :: "string list \<Rightarrow> string" where
  "join_comma [] = []"
| "join_comma [s] = s"
| "join_comma (s # t # ss) = s @ '','' @ join_comma (t # ss)"

fun js_toString :: "jsval \<Rightarrow> string" where
  "js_toString JUndefined = ''undefined''"
| "js_toString JNull = ''null''"
| "js_toString (JBool b) = (if b then ''true'' else ''false'')"
| "js_toString (JNum n) = show_int n"
| "js_toString (JStr s) = s"
| "js_toString (JArr xs) =
     join_comma (map (\<lambda>x. if x = JUndefined \<or> x = JNull then [] else js_toString x) xs)"
| "js_toString (JObj kvs) = ''[object Object]''"
| "js_toString (JInherited p k) =
     (if k = ''__proto__''
      then (case p of ObjectPrototype \<Rightarrow> ''[object Object]'' | ArrayPrototype \<Rightarrow> [])
      else ''function '' @ builtin_name p k @ ''() { [native code] }'')"

definition squote :: string where
  "squote = [CHR 0x27]"

section \<open>Field definitions\<close>

text \<open>Modelled from the spec: the module \<^verbatim>\<open>./types\<close> (the enumeration
  \<^verbatim>\<open>FieldType\<close> and the classes \<^verbatim>\<open>StringFieldDefinition\<close>,
  \<^verbatim>\<open>EnumFieldDefinition\<close>, \<^verbatim>\<open>MultipleSelectFieldDefinition\<close>) is not among
  the sources. The spec gives the discriminants \<^verbatim>\<open>STRING\<close>, \<^verbatim>\<open>ENUM\<close>,
  \<^verbatim>\<open>MULTIPLE_SELECT\<close>; the common attributes \<open>name\<close>, \<open>dataKey\<close>,
  \<open>label\<close> and \<open>type\<close>; the option values carried by the two selection
  variants; and the optional validation carried along unchanged.\<close>

datatype FieldType = String | Enum | MultipleSelect

definition FieldType_value :: "FieldType \<Rightarrow> string" where
  "FieldType_value t = (case t of String \<Rightarrow> ''STRING'' | Enum \<Rightarrow> ''ENUM''
     | MultipleSelect \<Rightarrow> ''MULTIPLE_SELECT'')"

record FieldDefinition =
  name :: string
  dataKey :: string
  label :: string
  type :: FieldType
  "values" :: "string list"
  validation :: jsval

text \<open>Modelled from the spec: the constructors of \<^verbatim>\<open>./types\<close>. Construction is
  validation and data copy, without side effects. Every variant requires
  \<open>label\<close> and \<open>dataKey\<close> (strings); \<^verbatim>\<open>Enum\<close> and
  \<^verbatim>\<open>MultipleSelect\<close> require \<open>values\<close> to be a non-empty sequence of strings,
  kept in order; \<^verbatim>\<open>String\<close> requires nothing more. A malformed record fails
  with a descriptive error, whose wording the spec leaves open.\<close>

fun strings_of :: "jsval list \<Rightarrow> string list option" where
  "strings_of [] = Some []"
| "strings_of (JStr s # vs) = (case strings_of vs of None \<Rightarrow> None | Some ss \<Rightarrow> Some (s # ss))"
| "strings_of (v # vs) = None"

definition required_string :: "(string \<times> jsval) list \<Rightarrow> string \<Rightarrow> thrown + string" where
  "required_string props k =
     (case get_prop props k of
        JStr s \<Rightarrow> Inr s
      | _ \<Rightarrow> Inl (ConfigurationError (''Field '' @ squote @ js_toString (get_prop props ''name'') @ squote
                 @ '' requires a string '' @ squote @ k @ squote)))"

definition required_values :: "(string \<times> jsval) list \<Rightarrow> thrown + string list" where
  "required_values props =
     (case get_prop props ''values'' of
        JArr vs \<Rightarrow>
          (case strings_of vs of
             Some (s # ss) \<Rightarrow> Inr (s # ss)
           | _ \<Rightarrow> Inl (ConfigurationError (''Field '' @ squote @ js_toString (get_prop props ''name'')
                      @ squote @ '' requires a non-empty list of string values'')))
      | _ \<Rightarrow> Inl (ConfigurationError (''Field '' @ squote @ js_toString (get_prop props ''name'')
                 @ squote @ '' requires a non-empty list of string values'')))"

definition base_field :: "FieldType \<Rightarrow> string list \<Rightarrow> (string \<times> jsval) list \<Rightarrow> thrown + FieldDefinition" where
  "base_field t vs props =
     (case required_string props ''name'' of
        Inl e \<Rightarrow> Inl e
      | Inr n \<Rightarrow>
          (case required_string props ''dataKey'' of
             Inl e \<Rightarrow> Inl e
           | Inr k \<Rightarrow>
               (case required_string props ''label'' of
                  Inl e \<Rightarrow> Inl e
                | Inr l \<Rightarrow>
                    Inr \<lparr>name = n, dataKey = k, label = l, type = t, values = vs,
                         validation = get_prop props ''validation''\<rparr>)))"

definition StringFieldDefinition :: "(string \<times> jsval) list \<Rightarrow> thrown + FieldDefinition" where
  "StringFieldDefinition props = base_field String [] props"

definition EnumFieldDefinition :: "(string \<times> jsval) list \<Rightarrow> thrown + FieldDefinition" where
  "EnumFieldDefinition props =
     (case required_values props of
        Inl e \<Rightarrow> Inl e
      | Inr vs \<Rightarrow> base_field Enum vs props)"

definition MultipleSelectFieldDefinition :: "(string \<times> jsval) list \<Rightarrow> thrown + FieldDefinition" where
  "MultipleSelectFieldDefinition props =
     (case required_values props of
        Inl e \<Rightarrow> Inl e
      | Inr vs \<Rightarrow> base_field MultipleSelect vs props)"

section \<open>The schema parser\<close>

subsection \<open>Localizing one raw field record\<close>

text \<open>The body of the callback that \<^verbatim>\<open>parseYamlConfig\<close> maps over the
  document's entries starts with a shallow copy \<^verbatim>\<open>{ ...rawField }\<close> and then
  resolves, in this order, the label, the values and the validation error message
  for the language. Only the label can fail. The copy is a plain object and none of
  the attribute names read from it (\<^verbatim>\<open>label\<close>, \<^verbatim>\<open>values\<close>,
  \<^verbatim>\<open>validation\<close>, \<^verbatim>\<open>type\<close>) is a member of \<^verbatim>\<open>Object.prototype\<close>, so
  these reads are reads of own properties; the reads under the language code are
  not.\<close>

definition missing_label :: "string \<Rightarrow> string \<Rightarrow> thrown" where
  "missing_label fname lang =
     ConfigurationError (''Missing label for field '' @ squote @ fname @ squote
       @ '' (lang='' @ lang @ '')'')"

definition label_missing :: "(string \<times> jsval) list \<Rightarrow> string \<Rightarrow> bool" where
  "label_missing field lang =
     (\<not> truthy (get_prop field ''label'')
      \<or> (typeof_object (get_prop field ''label'')
          \<and> \<not> truthy (js_get (get_prop field ''label'') lang)))"

definition localizeLabel :: "(string \<times> jsval) list \<Rightarrow> string \<Rightarrow> (string \<times> jsval) list" where
  "localizeLabel field lang =
     (if typeof_object (get_prop field ''label'')
      then set_prop field ''label'' (js_get (get_prop field ''label'') lang)
      else field)"

definition localizeValues :: "(string \<times> jsval) list \<Rightarrow> string \<Rightarrow> (string \<times> jsval) list" where
  "localizeValues field lang =
     (if truthy (get_prop field ''values'') \<and> typeof_object (get_prop field ''values'')
         \<and> \<not> isArray (get_prop field ''values'')
      then set_prop field ''values'' (js_get (get_prop field ''values'') lang)
      else field)"

definition localizeValidation :: "(string \<times> jsval) list \<Rightarrow> string \<Rightarrow> (string \<times> jsval) list" where
  "localizeValidation field lang =
     (if truthy (js_get (get_prop field ''validation'') ''errorMessage'')
         \<and> typeof_object (js_get (get_prop field ''validation'') ''errorMessage'')
      then set_prop field ''validation''
             (JObj (set_prop (spread (get_prop field ''validation'')) ''errorMessage''
                      (js_get (js_get (get_prop field ''validation'') ''errorMessage'') lang)))
      else field)"

definition localizeField :: "string \<Rightarrow> jsval \<Rightarrow> string \<Rightarrow> thrown + (string \<times> jsval) list" where
  "localizeField fname rawField lang =
     (let field = spread rawField in
      if label_missing field lang then Inl (missing_label fname lang)
      else Inr (localizeValidation (localizeValues (localizeLabel field lang) lang) lang))"

text \<open>The record once its label is known to resolve.\<close>

definition localized :: "(string \<times> jsval) list \<Rightarrow> string \<Rightarrow> (string \<times> jsval) list" where
  "localized field lang = localizeValidation (localizeValues (localizeLabel field lang) lang) lang"

subsection \<open>Constructing the field definition\<close>

text \<open>The \<^verbatim>\<open>switch\<close> on \<^verbatim>\<open>field.type\<close> compares with \<^verbatim>\<open>===\<close>, so only
  the three strings select a constructor; the constructor receives
  \<^verbatim>\<open>{ ...field, name }\<close>.\<close>

definition invalid_type :: "string \<Rightarrow> jsval \<Rightarrow> thrown" where
  "invalid_type fname t =
     ConfigurationError (''Invalid field type for '' @ squote @ fname @ squote @ '': ''
       @ js_toString t)"

definition constructField :: "string \<Rightarrow> (string \<times> jsval) list \<Rightarrow> thrown + FieldDefinition" where
  "constructField fname field =
     (if get_prop field ''type'' = JStr (FieldType_value String)
      then StringFieldDefinition (set_prop field ''name'' (JStr fname))
      else if get_prop field ''type'' = JStr (FieldType_value Enum)
      then EnumFieldDefinition (set_prop field ''name'' (JStr fname))
      else if get_prop field ''type'' = JStr (FieldType_value MultipleSelect)
      then MultipleSelectFieldDefinition (set_prop field ''name'' (JStr fname))
      else Inl (invalid_type fname (get_prop field ''type'')))"

definition fieldOfEntry :: "string \<Rightarrow> string \<times> jsval \<Rightarrow> thrown + FieldDefinition" where
  "fieldOfEntry lang entry =
     (case localizeField (fst entry) (snd entry) lang of
        Inl e \<Rightarrow> Inl e
      | Inr field \<Rightarrow> constructField (fst entry) field)"

text \<open>\<^verbatim>\<open>Array.prototype.map\<close> with a callback that may throw: the first
  exception ends the iteration.\<close>

fun mapFields :: "string \<Rightarrow> (string \<times> jsval) list \<Rightarrow> thrown + FieldDefinition list" where
  "mapFields lang [] = Inr []"
| "mapFields lang (entry # entries) =
     (case fieldOfEntry lang entry of
        Inl e \<Rightarrow> Inl e
      | Inr fd \<Rightarrow>
          (case mapFields lang entries of
             Inl e \<Rightarrow> Inl e
           | Inr fds \<Rightarrow> Inr (fd # fds)))"

subsection \<open>Duplicate data keys\<close>

definition duplicate_dataKey :: "string \<Rightarrow> thrown" where
  "duplicate_dataKey k = ConfigurationError (''Duplicate dataKey '' @ squote @ k @ squote)"

text \<open>The \<^verbatim>\<open>forEach\<close> over the constructed definitions, with the
  \<^verbatim>\<open>Map\<close> of keys seen so far.\<close>

fun checkDataKeys :: "(string \<rightharpoonup> bool) \<Rightarrow> FieldDefinition list \<Rightarrow> thrown + unit" where
  "checkDataKeys dataKeys [] = Inr ()"
| "checkDataKeys dataKeys (field # rest) =
     (if dataKeys (dataKey field) \<noteq> None then Inl (duplicate_dataKey (dataKey field))
      else checkDataKeys (dataKeys(dataKey field \<mapsto> True)) rest)"

subsection \<open>The parser\<close>

text \<open>The YAML library's \<^verbatim>\<open>parse\<close> is a parameter: it returns a value or
  throws. The \<^verbatim>\<open>catch\<close> of \<^verbatim>\<open>parseYamlConfig\<close> rethrows what it caught.\<close>

definition parseDocument :: "jsval \<Rightarrow> string \<Rightarrow> thrown + FieldDefinition list" where
  "parseDocument yamlJson lang =
     (case Object_entries yamlJson of
        Inl e \<Rightarrow> Inl e
      | Inr entries \<Rightarrow>
          (case mapFields lang entries of
             Inl e \<Rightarrow> Inl e
           | Inr fieldDefinitions \<Rightarrow>
               (case checkDataKeys Map.empty fieldDefinitions of
                  Inl e \<Rightarrow> Inl e
                | Inr u \<Rightarrow> Inr fieldDefinitions)))"

definition parseYamlConfig ::
  "(string \<Rightarrow> thrown + jsval) \<Rightarrow> string \<Rightarrow> string \<Rightarrow> thrown + FieldDefinition list" where
  "parseYamlConfig yaml_parse yamlText lang =
     (case yaml_parse yamlText of
        Inl e \<Rightarrow> Inl e
      | Inr yamlJson \<Rightarrow> parseDocument yamlJson lang)"

section \<open>The hook \<^verbatim>\<open>useFieldsConfig\<close>\<close>

text \<open>The hook's four state cells. The constant \<^verbatim>\<open>DEFAULT_LOCALE\<close> comes from
  a module that is not among the sources and is a parameter; an undefined
  \<^verbatim>\<open>i18n.language\<close> is the empty string, which is falsy as well.\<close>

record hook_state =
  fields_st :: "FieldDefinition list"
  loading :: bool
  error :: "thrown option"
  fetchedYaml :: "(string \<times> string) option"

definition initial_state :: hook_state where
  "initial_state = \<lparr>fields_st = [], loading = True, error = None, fetchedYaml = None\<rparr>"

definition CONFIG_BASE_PATH :: string where
  "CONFIG_BASE_PATH = ''/data/config''"

definition configPath :: "string \<Rightarrow> string" where
  "configPath lang = CONFIG_BASE_PATH @ ''/fields-'' @ lang @ ''.yaml''"

definition active_language :: "string \<Rightarrow> string \<Rightarrow> string" where
  "active_language DEFAULT_LOCALE i18n_language =
     (if i18n_language = [] then DEFAULT_LOCALE else i18n_language)"

text \<open>The first effect, up to the \<^verbatim>\<open>await\<close>: it returns at once when any
  document is held; otherwise it sets \<open>loading\<close> and calls the fetch primitive.
  The second component is the resource the network is asked for, if any.\<close>

definition fetchEffect :: "string \<Rightarrow> hook_state \<Rightarrow> string \<Rightarrow> hook_state \<times> string option" where
  "fetchEffect DEFAULT_LOCALE st i18n_language =
     (let lang = active_language DEFAULT_LOCALE i18n_language in
      if fetchedYaml st \<noteq> None then (st, None)
      else (st\<lparr>loading := True\<rparr>, Some (configPath lang)))"

text \<open>The rest of \<^verbatim>\<open>fetchConfig\<close>, run when the request made for \<open>lang\<close>
  settles: with the response text, or with what the primitive threw.\<close>

definition fetchSettled :: "hook_state \<Rightarrow> string \<Rightarrow> thrown + string \<Rightarrow> hook_state" where
  "fetchSettled st lang outcome =
     (case outcome of
        Inr yamlText \<Rightarrow> st\<lparr>fetchedYaml := Some (yamlText, lang), error := None\<rparr>
      | Inl err \<Rightarrow>
          st\<lparr>error := Some (if instanceof_Error err then err
                             else Error ''Unknown error loading configuration''),
             loading := False\<rparr>)"

text \<open>The second effect: parse the held text for the current language.\<close>

definition parseEffect ::
  "(string \<Rightarrow> thrown + jsval) \<Rightarrow> string \<Rightarrow> hook_state \<Rightarrow> string \<Rightarrow> hook_state" where
  "parseEffect yaml_parse DEFAULT_LOCALE st i18n_language =
     (case fetchedYaml st of
        None \<Rightarrow> st
      | Some fetched \<Rightarrow>
          (let currentLang = active_language DEFAULT_LOCALE i18n_language in
           case parseYamlConfig yaml_parse (fst fetched) currentLang of
             Inr parsedDefinitions \<Rightarrow>
               st\<lparr>fields_st := parsedDefinitions, error := None, loading := False\<rparr>
           | Inl err \<Rightarrow>
               st\<lparr>error := Some (if instanceof_Error err then err
                                  else Error ''Error parsing configuration''),
                  loading := False\<rparr>))"

text \<open>The controller reacts to two kinds of event. A language event (the first
  render, or a change of \<^verbatim>\<open>i18n.language\<close>) runs both effects, in the order
  they are declared. A settled request runs the continuation of
  \<^verbatim>\<open>fetchConfig\<close>; when it stored a document, \<open>fetchedYaml\<close> has changed and
  the second effect runs for the language current at that moment.\<close>

datatype event =
    LanguageChanged string
  | FetchSettled string "thrown + string"

record controller =
  state :: hook_state
  language :: string

definition initial_controller :: controller where
  "initial_controller = \<lparr>state = initial_state, language = []\<rparr>"

fun step ::
  "(string \<Rightarrow> thrown + jsval) \<Rightarrow> string \<Rightarrow> controller \<Rightarrow> event \<Rightarrow> controller \<times> string option" where
  "step yaml_parse DEFAULT_LOCALE c (LanguageChanged l) =
     (let (st1, request) = fetchEffect DEFAULT_LOCALE (state c) l in
      (\<lparr>state = parseEffect yaml_parse DEFAULT_LOCALE st1 l, language = l\<rparr>, request))"
| "step yaml_parse DEFAULT_LOCALE c (FetchSettled lang outcome) =
     (let st1 = fetchSettled (state c) lang outcome in
      (c\<lparr>state := (case outcome of
                       Inr yamlText \<Rightarrow> parseEffect yaml_parse DEFAULT_LOCALE st1 (language c)
                     | Inl err \<Rightarrow> st1)\<rparr>,
       None))"

text \<open>A run of events, with the requests made on the way, oldest first.\<close>

fun run ::
  "(string \<Rightarrow> thrown + jsval) \<Rightarrow> string \<Rightarrow> controller \<Rightarrow> event list \<Rightarrow> controller \<times> string list" where
  "run yaml_parse DEFAULT_LOCALE c [] = (c, [])"
| "run yaml_parse DEFAULT_LOCALE c (ev # evs) =
     (let (c1, request) = step yaml_parse DEFAULT_LOCALE c ev;
          (c2, requests) = run yaml_parse DEFAULT_LOCALE c1 evs
      in (c2, (case request of None \<Rightarrow> [] | Some r \<Rightarrow> [r]) @ requests))"

section \<open>The localizer on a store\<close>

text \<open>Whether the localizer changes the raw record depends on which object each
  assignment writes to, which the value model cannot show. Here objects and arrays
  live in a store, a list indexed by address; a value is a primitive or a reference.
  \<^verbatim>\<open>{ ...x }\<close> allocates a new object holding the properties of \<open>x\<close> (the
  property values themselves are shared, not copied); \<^verbatim>\<open>x.k = v\<close> overwrites
  the object at the address of \<open>x\<close>.\<close>

type_synonym addr = nat

datatype hval =
    HUndefined
  | HNull
  | HBool bool
  | HNum int
  | HStr string
  | HRef addr
  | HInherited prototype string

datatype hobj =
    HObject "(string \<times> hval) list"
  | HArray "hval list"

type_synonym heap = "hobj list"

fun h_truthy :: "hval \<Rightarrow> bool" where
  "h_truthy HUndefined = False"
| "h_truthy HNull = False"
| "h_truthy (HBool b) = b"
| "h_truthy (HNum n) = (n \<noteq> 0)"
| "h_truthy (HStr s) = (s \<noteq> [])"
| "h_truthy (HRef a) = True"
| "h_truthy (HInherited p k) = True"

fun h_typeof_object :: "hval \<Rightarrow> bool" where
  "h_typeof_object HNull = True"
| "h_typeof_object (HRef a) = True"
| "h_typeof_object (HInherited p k) = (k = ''__proto__'')"
| "h_typeof_object v = False"

definition h_isArray :: "heap \<Rightarrow> hval \<Rightarrow> bool" where
  "h_isArray h v =
     (case v of
        HRef a \<Rightarrow> a < length h \<and> (case h ! a of HArray xs \<Rightarrow> True | HObject kvs \<Rightarrow> False)
      | HInherited p k \<Rightarrow> p = ArrayPrototype \<and> k = ''__proto__''
      | _ \<Rightarrow> False)"

definition h_lookup :: "(string \<times> hval) list \<Rightarrow> string \<Rightarrow> hval" where
  "h_lookup kvs k = (case map_of kvs k of None \<Rightarrow> HUndefined | Some v \<Rightarrow> v)"

fun h_update :: "(string \<times> hval) list \<Rightarrow> string \<Rightarrow> hval \<Rightarrow> (string \<times> hval) list" where
  "h_update [] k v = [(k, v)]"
| "h_update ((k', v') # kvs) k v =
     (if k' = k then (k, v) # kvs else (k', v') # h_update kvs k v)"

definition h_inherited :: "prototype \<Rightarrow> string \<Rightarrow> hval" where
  "h_inherited p k = (case found_on p k of None \<Rightarrow> HUndefined | Some q \<Rightarrow> HInherited q k)"

text \<open>A read \<^verbatim>\<open>x[k]\<close>, as on values: an own property, an element or the length of
  an array, else what the prototype has. The built-ins are not in the store; nothing
  writes to them.\<close>

definition h_get :: "heap \<Rightarrow> hval \<Rightarrow> string \<Rightarrow> hval" where
  "h_get h v k =
     (case v of
        HRef a \<Rightarrow>
          (if a < length h
           then (case h ! a of
                   HObject kvs \<Rightarrow>
                     (case map_of kvs k of Some w \<Rightarrow> w | None \<Rightarrow> h_inherited ObjectPrototype k)
                 | HArray xs \<Rightarrow>
                     (case find (\<lambda>i. show_nat i = k) [0..<length xs] of
                        Some i \<Rightarrow> xs ! i
                      | None \<Rightarrow> if k = ''length'' then HNum (int (length xs))
                                else h_inherited ArrayPrototype k))
           else HUndefined)
      | HInherited ObjectPrototype m \<Rightarrow>
          (if m = ''__proto__''
           then (if k = ''__proto__'' then HNull else h_inherited ObjectPrototype k)
           else HUndefined)
      | HInherited ArrayPrototype m \<Rightarrow>
          (if m = ''__proto__''
           then (if k = ''length'' then HNum 0
                 else if k = ''__proto__'' then HInherited ObjectPrototype ''__proto__''
                 else h_inherited ArrayPrototype k)
           else HUndefined)
      | _ \<Rightarrow> HUndefined)"

definition h_spread :: "heap \<Rightarrow> hval \<Rightarrow> (string \<times> hval) list" where
  "h_spread h v =
     (case v of
        HRef a \<Rightarrow>
          (if a < length h
           then (case h ! a of
                   HObject kvs \<Rightarrow> kvs
                 | HArray xs \<Rightarrow> zip (map show_nat [0..<length xs]) xs)
           else [])
      | HStr s \<Rightarrow> zip (map show_nat [0..<length s]) (map (\<lambda>c. HStr [c]) s)
      | _ \<Rightarrow> [])"

definition alloc :: "heap \<Rightarrow> hobj \<Rightarrow> addr \<times> heap" where
  "alloc h obj = (length h, h @ [obj])"

definition h_write :: "heap \<Rightarrow> addr \<Rightarrow> string \<Rightarrow> hval \<Rightarrow> heap" where
  "h_write h a k v =
     (if a < length h
      then (case h ! a of
              HObject kvs \<Rightarrow> h[a := HObject (h_update kvs k v)]
            | HArray xs \<Rightarrow> h)
      else h)"

text \<open>The localization steps of the callback, on the store. \<open>field\<close> is the
  address of the copy \<^verbatim>\<open>{ ...rawField }\<close>; the label and the values are
  written into it, and \<^verbatim>\<open>field.validation\<close> is pointed to a new object
  \<^verbatim>\<open>{ ...field.validation, errorMessage: ... }\<close>. A missing label throws after
  the copy was made.\<close>

definition h_label_missing :: "heap \<Rightarrow> addr \<Rightarrow> string \<Rightarrow> bool" where
  "h_label_missing h field lang =
     (\<not> h_truthy (h_get h (HRef field) ''label'')
      \<or> (h_typeof_object (h_get h (HRef field) ''label'')
          \<and> \<not> h_truthy (h_get h (h_get h (HRef field) ''label'') lang)))"

definition localizeLabel_h :: "addr \<Rightarrow> string \<Rightarrow> heap \<Rightarrow> heap" where
  "localizeLabel_h field lang h =
     (if h_typeof_object (h_get h (HRef field) ''label'')
      then h_write h field ''label'' (h_get h (h_get h (HRef field) ''label'') lang)
      else h)"

definition localizeValues_h :: "addr \<Rightarrow> string \<Rightarrow> heap \<Rightarrow> heap" where
  "localizeValues_h field lang h =
     (if h_truthy (h_get h (HRef field) ''values'')
         \<and> h_typeof_object (h_get h (HRef field) ''values'')
         \<and> \<not> h_isArray h (h_get h (HRef field) ''values'')
      then h_write h field ''values'' (h_get h (h_get h (HRef field) ''values'') lang)
      else h)"

definition localizeValidation_h :: "addr \<Rightarrow> string \<Rightarrow> heap \<Rightarrow> heap" where
  "localizeValidation_h field lang h =
     (if h_truthy (h_get h (h_get h (HRef field) ''validation'') ''errorMessage'')
         \<and> h_typeof_object (h_get h (h_get h (HRef field) ''validation'') ''errorMessage'')
      then (let (validation, h') =
                  alloc h (HObject (h_update (h_spread h (h_get h (HRef field) ''validation''))
                     ''errorMessage''
                     (h_get h (h_get h (h_get h (HRef field) ''validation'') ''errorMessage'') lang)))
            in h_write h' field ''validation'' (HRef validation))
      else h)"

definition localizeField_h :: "string \<Rightarrow> hval \<Rightarrow> string \<Rightarrow> heap \<Rightarrow> heap \<times> (thrown + addr)" where
  "localizeField_h fname rawField lang h =
     (let (field, h1) = alloc h (HObject (h_spread h rawField)) in
      if h_label_missing h1 field lang then (h1, Inl (missing_label fname lang))
      else (localizeValidation_h field lang (localizeValues_h field lang (localizeLabel_h field lang h1)),
            Inr field))"

text \<open>The localizations of a run over entries, up to the first missing label. The
  construction that follows each localization reads the copy and, by the spec, has
  no side effects; when it throws, the run is a shorter one.\<close>

fun localizeEntries_h :: "string \<Rightarrow> (string \<times> hval) list \<Rightarrow> heap \<Rightarrow> heap \<times> (thrown + addr list)" where
  "localizeEntries_h lang [] h = (h, Inr [])"
| "localizeEntries_h lang (entry # entries) h =
     (case localizeField_h (fst entry) (snd entry) lang h of
        (h1, Inl e) \<Rightarrow> (h1, Inl e)
      | (h1, Inr field) \<Rightarrow>
          (case localizeEntries_h lang entries h1 of
             (h2, Inl e) \<Rightarrow> (h2, Inl e)
           | (h2, Inr addrs) \<Rightarrow> (h2, Inr (field # addrs))))"

text \<open>The value a reference stands for, read off the store to a given depth, and
  stores without dangling references.\<close>

fun reify :: "nat \<Rightarrow> heap \<Rightarrow> hval \<Rightarrow> jsval" where
  "reify n h HUndefined = JUndefined"
| "reify n h HNull = JNull"
| "reify n h (HBool b) = JBool b"
| "reify n h (HNum i) = JNum i"
| "reify n h (HStr s) = JStr s"
| "reify n h (HInherited p k) = JInherited p k"
| "reify 0 h (HRef a) = JUndefined"
| "reify (Suc n) h (HRef a) =
     (if a < length h
      then (case h ! a of
              HObject kvs \<Rightarrow> JObj (map (\<lambda>kv. (fst kv, reify n h (snd kv))) kvs)
            | HArray xs \<Rightarrow> JArr (map (reify n h) xs))
      else JUndefined)"

fun in_heap :: "heap \<Rightarrow> hval \<Rightarrow> bool" where
  "in_heap h (HRef a) = (a < length h)"
| "in_heap h v = True"

fun members :: "hobj \<Rightarrow> hval list" where
  "members (HObject kvs) = map snd kvs"
| "members (HArray xs) = xs"

definition closed_heap :: "heap \<Rightarrow> bool" where
  "closed_heap h = list_all (\<lambda>obj. list_all (in_heap h) (members obj)) h"

text \<open>A one-field document on a store: the label and the validation message are
  mappings, the field record is at address 3 and the document at address 4.\<close>

definition example_heap :: heap where
  "example_heap =
     [HObject [(''en'', HStr ''First name''), (''es'', HStr ''Nombre'')],
      HObject [(''en'', HStr ''Required''), (''es'', HStr ''Obligatorio'')],
      HObject [(''errorMessage'', HRef 1), (''pattern'', HStr ''.+'')],
      HObject [(''type'', HStr ''STRING''), (''label'', HRef 0), (''validation'', HRef 2),
               (''dataKey'', HStr ''firstName'')],
      HObject [(''firstName'', HRef 3)]]"

text \<open>A depth that reaches everything under a value: reading to it cuts nothing
  off.\<close>

fun complete :: "nat \<Rightarrow> heap \<Rightarrow> hval \<Rightarrow> bool" where
  "complete 0 h (HRef a) = False"
| "complete (Suc n) h (HRef a) = (a < length h \<and> list_all (complete n h) (members (h ! a)))"
| "complete n h v = True"

definition reify_kv :: "nat \<Rightarrow> heap \<Rightarrow> string \<times> hval \<Rightarrow> string \<times> jsval" where
  "reify_kv n h kv = (fst kv, reify n h (snd kv))"

text \<open>The properties of the copy after each step and of the new validation object,
  in terms of the store before the call.\<close>

definition labelled_props :: "heap \<Rightarrow> (string \<times> hval) list \<Rightarrow> string \<Rightarrow> (string \<times> hval) list" where
  "labelled_props h kvs lang =
     (if h_typeof_object (h_lookup kvs ''label'')
      then h_update kvs ''label'' (h_get h (h_lookup kvs ''label'') lang)
      else kvs)"

definition valued_props :: "heap \<Rightarrow> (string \<times> hval) list \<Rightarrow> string \<Rightarrow> (string \<times> hval) list" where
  "valued_props h kvs lang =
     (if h_truthy (h_lookup kvs ''values'') \<and> h_typeof_object (h_lookup kvs ''values'')
         \<and> \<not> h_isArray h (h_lookup kvs ''values'')
      then h_update kvs ''values'' (h_get h (h_lookup kvs ''values'') lang)
      else kvs)"

definition translated_message :: "heap \<Rightarrow> (string \<times> hval) list \<Rightarrow> bool" where
  "translated_message h kvs =
     (h_truthy (h_get h (h_lookup kvs ''validation'') ''errorMessage'')
      \<and> h_typeof_object (h_get h (h_lookup kvs ''validation'') ''errorMessage''))"

definition validation_props :: "heap \<Rightarrow> (string \<times> hval) list \<Rightarrow> string \<Rightarrow> (string \<times> hval) list" where
  "validation_props h kvs lang =
     h_update (h_spread h (h_lookup kvs ''validation'')) ''errorMessage''
       (h_get h (h_get h (h_lookup kvs ''validation'') ''errorMessage'') lang)"

definition label_unresolved :: "heap \<Rightarrow> (string \<times> hval) list \<Rightarrow> string \<Rightarrow> bool" where
  "label_unresolved h kvs lang =
     (\<not> h_truthy (h_lookup kvs ''label'')
      \<or> (h_typeof_object (h_lookup kvs ''label'')
          \<and> \<not> h_truthy (h_get h (h_lookup kvs ''label'') lang)))"

section \<open>Valid schema documents\<close>

text \<open>The schema document format: every entry is an object with a \<open>type\<close> among
  the three discriminants, a \<open>label\<close> that is a non-empty string or a mapping
  holding one for the language, \<open>values\<close> (a non-empty sequence of strings, or
  a mapping holding one for the language) that the two selection types require, an
  optional \<open>validation\<close> object whose optional \<open>errorMessage\<close> is a string
  or a mapping holding one for the language, and a string \<open>dataKey\<close>; no two
  entries have the same \<open>dataKey\<close>.\<close>

definition nonempty_strings :: "jsval \<Rightarrow> bool" where
  "nonempty_strings v =
     (case v of
        JArr vs \<Rightarrow> (case strings_of vs of Some (s # ss) \<Rightarrow> True | _ \<Rightarrow> False)
      | _ \<Rightarrow> False)"

definition valid_type :: "jsval \<Rightarrow> bool" where
  "valid_type t = (t = JStr ''STRING'' \<or> t = JStr ''ENUM'' \<or> t = JStr ''MULTIPLE_SELECT'')"

definition valid_label :: "string \<Rightarrow> jsval \<Rightarrow> bool" where
  "valid_label lang l =
     (case l of
        JStr s \<Rightarrow> s \<noteq> []
      | JObj m \<Rightarrow> (case get_prop m lang of JStr s \<Rightarrow> s \<noteq> [] | _ \<Rightarrow> False)
      | _ \<Rightarrow> False)"

definition valid_values :: "string \<Rightarrow> jsval \<Rightarrow> bool" where
  "valid_values lang v =
     (case v of
        JArr vs \<Rightarrow> nonempty_strings v
      | JObj m \<Rightarrow> nonempty_strings (get_prop m lang)
      | _ \<Rightarrow> False)"

definition valid_validation :: "string \<Rightarrow> jsval \<Rightarrow> bool" where
  "valid_validation lang v =
     (case v of
        JUndefined \<Rightarrow> True
      | JObj m \<Rightarrow>
          (case get_prop m ''errorMessage'' of
             JUndefined \<Rightarrow> True
           | JStr s \<Rightarrow> True
           | JObj mm \<Rightarrow> (case get_prop mm lang of JStr s \<Rightarrow> True | _ \<Rightarrow> False)
           | _ \<Rightarrow> False)
      | _ \<Rightarrow> False)"

definition is_string :: "jsval \<Rightarrow> bool" where
  "is_string v = (case v of JStr s \<Rightarrow> True | _ \<Rightarrow> False)"

definition valid_record :: "string \<Rightarrow> jsval \<Rightarrow> bool" where
  "valid_record lang raw =
     (case raw of
        JObj props \<Rightarrow>
          valid_type (get_prop props ''type'')
          \<and> valid_label lang (get_prop props ''label'')
          \<and> (if get_prop props ''type'' = JStr ''STRING''
              then get_prop props ''values'' = JUndefined
                   \<or> valid_values lang (get_prop props ''values'')
              else valid_values lang (get_prop props ''values''))
          \<and> valid_validation lang (get_prop props ''validation'')
          \<and> is_string (get_prop props ''dataKey'')
      | _ \<Rightarrow> False)"

definition valid_document :: "(string \<times> jsval) list \<Rightarrow> string \<Rightarrow> bool" where
  "valid_document D lang =
     (list_all (\<lambda>entry. valid_record lang (snd entry)) D
      \<and> distinct (map (\<lambda>entry. js_get (snd entry) ''dataKey'') D))"

text \<open>The display string a label stands for in a language.\<close>

definition resolved_label :: "string \<Rightarrow> jsval \<Rightarrow> jsval" where
  "resolved_label lang l = (if typeof_object l then js_get l lang else l)"

section \<open>Example documents\<close>

text \<open>The two-field document of the end-to-end example, and variants of it.\<close>

definition example_document :: "(string \<times> jsval) list" where
  "example_document =
     [(''firstName'', JObj [(''type'', JStr ''STRING''),
         (''label'', JObj [(''en'', JStr ''First name''), (''es'', JStr ''Nombre'')]),
         (''dataKey'', JStr ''firstName'')]),
      (''country'', JObj [(''type'', JStr ''ENUM''),
         (''label'', JObj [(''en'', JStr ''Country''), (''es'', JStr ''Pais'')]),
         (''values'', JObj [(''en'', JArr [JStr ''US'', JStr ''CA'']),
                            (''es'', JArr [JStr ''US'', JStr ''CA''])]),
         (''dataKey'', JStr ''country'')])]"

definition example_parse :: "string \<Rightarrow> thrown + jsval" where
  "example_parse yamlText = Inr (JObj example_document)"

definition example_fields :: "string \<Rightarrow> string \<Rightarrow> FieldDefinition list" where
  "example_fields l1 l2 =
     [\<lparr>name = ''firstName'', dataKey = ''firstName'', label = l1, type = String,
        values = [], validation = JUndefined\<rparr>,
      \<lparr>name = ''country'', dataKey = ''country'', label = l2, type = Enum,
        values = [''US'', ''CA''], validation = JUndefined\<rparr>]"

definition cached_state :: hook_state where
  "cached_state = \<lparr>fields_st = example_fields ''First name'' ''Country'', loading = False,
     error = None, fetchedYaml = Some (''fields'', ''en'')\<rparr>"

text \<open>A record without its \<open>label\<close>.\<close>

definition without_label :: "(string \<times> jsval) list \<Rightarrow> (string \<times> jsval) list" where
  "without_label props = filter (\<lambda>kv. fst kv \<noteq> ''label'') props"

definition string_props :: "jsval \<Rightarrow> string \<Rightarrow> (string \<times> jsval) list" where
  "string_props l k = [(''type'', JStr ''STRING''), (''label'', l), (''dataKey'', JStr k)]"

definition string_field :: "string \<Rightarrow> jsval \<Rightarrow> string \<Rightarrow> string \<times> jsval" where
  "string_field fname l k = (fname, JObj (string_props l k))"

definition parse_to :: "(string \<times> jsval) list \<Rightarrow> string \<Rightarrow> thrown + jsval" where
  "parse_to D yamlText = Inr (JObj D)"

definition duplicate_document :: "(string \<times> jsval) list" where
  "duplicate_document =
     [string_field ''a'' (JStr ''A'') ''x'', string_field ''b'' (JStr ''B'') ''y'',
      string_field ''c'' (JStr ''C'') ''x'', string_field ''d'' (JStr ''D'') ''y'']"

definition empty_label_document :: "(string \<times> jsval) list" where
  "empty_label_document = [string_field ''a'' (JStr []) ''a'']"

definition empty_translation_document :: "(string \<times> jsval) list" where
  "empty_translation_document =
     [string_field ''a'' (JObj [(''en'', JStr ''A''), (''es'', JStr [])]) ''a'']"

definition bogus_record :: jsval where
  "bogus_record = JObj [(''type'', JStr ''BOGUS''), (''label'', JStr ''A''), (''dataKey'', JStr ''a'')]"

definition unlabelled_record :: jsval where
  "unlabelled_record = JObj [(''type'', JStr ''STRING''), (''dataKey'', JStr ''b'')]"

definition bad_type_document :: "(string \<times> jsval) list" where
  "bad_type_document = [(''a'', bogus_record), (''b'', unlabelled_record)]"



text \<open>The example document with a French label for the first field only.\<close>

definition partial_first :: "string \<times> jsval" where
  "partial_first =
     (''firstName'', JObj [(''type'', JStr ''STRING''),
        (''label'', JObj [(''en'', JStr ''First name''), (''es'', JStr ''Nombre''),
                          (''fr'', JStr ''Prenom'')]),
        (''dataKey'', JStr ''firstName'')])"

definition partial_country :: jsval where
  "partial_country =
     JObj [(''type'', JStr ''ENUM''),
        (''label'', JObj [(''en'', JStr ''Country''), (''es'', JStr ''Pais'')]),
        (''values'', JObj [(''en'', JArr [JStr ''US'', JStr ''CA'']),
                           (''es'', JArr [JStr ''US'', JStr ''CA'']),
                           (''fr'', JArr [JStr ''US'', JStr ''CA''])]),
        (''dataKey'', JStr ''country'')]"

definition partial_document :: "(string \<times> jsval) list" where
  "partial_document = [partial_first, (''country'', partial_country)]"

definition duplicate_fields :: "FieldDefinition list" where
  "duplicate_fields =
     [\<lparr>name = ''a'', dataKey = ''x'', label = ''A'', type = String, values = [], validation = JUndefined\<rparr>,
      \<lparr>name = ''b'', dataKey = ''y'', label = ''B'', type = String, values = [], validation = JUndefined\<rparr>,
      \<lparr>name = ''c'', dataKey = ''x'', label = ''C'', type = String, values = [], validation = JUndefined\<rparr>,
      \<lparr>name = ''d'', dataKey = ''y'', label = ''D'', type = String, values = [], validation = JUndefined\<rparr>]"

definition throwing_parse :: "string \<Rightarrow> thrown + jsval" where
  "throwing_parse yamlText = Inl (NonError (JStr ''boom''))"

definition empty_parse :: "string \<Rightarrow> thrown + jsval" where
  "empty_parse yamlText = Inr JNull"

section \<open>Properties of the parser\<close>

subsection \<open>Reading and writing properties\<close>

lemma get_prop_set_prop:
  "get_prop (set_prop kvs k v) k' = (if k' = k then v else get_prop kvs k')"
  by (induction kvs) (auto simp: get_prop_def)

lemma digit_char_digit: "d < 10 \<Longrightarrow> digit_char d \<in> set ''0123456789''"
proof -
  assume "d < 10"
  then have "d \<in> {0,1,2,3,4,5,6,7,8,9}" by auto
  then show ?thesis by (auto simp: digit_char_def)
qed

lemma show_nat_digits: "set (show_nat n) \<subseteq> set ''0123456789''"
proof (induction n rule: show_nat.induct)
  case (1 n)
  show ?case
  proof (cases "n < 10")
    case True
    then show ?thesis using digit_char_digit [of n] by (subst show_nat.simps) simp
  next
    case False
    have "n mod 10 < 10" by simp
    then have "digit_char (n mod 10) \<in> set ''0123456789''" by (rule digit_char_digit)
    with False 1 show ?thesis by (subst show_nat.simps) simp
  qed
qed

lemma get_prop_index_entries:
  assumes "\<not> set k \<subseteq> set ''0123456789''"
  shows "get_prop (index_entries xs) k = JUndefined"
proof -
  have "k \<notin> set (map show_nat [0..<length xs])"
    using assms show_nat_digits by auto
  then have "map_of (index_entries xs) k = None"
    unfolding index_entries_def by (simp add: map_of_zip_is_None)
  then show ?thesis by (simp add: get_prop_def)
qed

declare js_get.simps [simp del]

lemma inherited_plain: "plain_name k \<Longrightarrow> inherited p k = JUndefined"
  by (cases p) (simp_all add: plain_name_def inherited_def found_on_def)

lemma proto_plain: "plain_name k \<Longrightarrow> k \<noteq> ''__proto__''"
  by (auto simp: plain_name_def Object_prototype_members_def)

lemma js_get_own: "map_of kvs k = Some v \<Longrightarrow> js_get (JObj kvs) k = v"
  by (simp add: js_get.simps)

lemma js_get_defined: "get_prop kvs k \<noteq> JUndefined \<Longrightarrow> js_get (JObj kvs) k = get_prop kvs k"
  by (cases "map_of kvs k") (simp_all add: get_prop_def js_get.simps)

lemma js_get_plain: "plain_name k \<Longrightarrow> js_get (JObj kvs) k = get_prop kvs k"
  by (cases "map_of kvs k") (simp_all add: get_prop_def inherited_plain js_get.simps)

lemma js_get_primitive:
  "js_get JUndefined k = JUndefined" "js_get JNull k = JUndefined"
  "js_get (JBool b) k = JUndefined" "js_get (JNum n) k = JUndefined"
  "js_get (JStr s) k = JUndefined"
  by (simp_all add: js_get.simps)

lemma find_index_plain:
  assumes "\<not> set k \<subseteq> set ''0123456789''"
  shows "find (\<lambda>i. show_nat i = k) is = None"
proof -
  have "show_nat i \<noteq> k" for i
    using assms show_nat_digits [of i] by auto
  then show ?thesis by (simp add: find_None_iff)
qed

lemma js_get_JArr_plain:
  assumes "plain_name k"
  shows "js_get (JArr xs) k = JUndefined"
proof -
  from assms have nd: "\<not> set k \<subseteq> set ''0123456789''" and nl: "k \<noteq> ''length''"
    by (simp_all add: plain_name_def)
  show ?thesis
    by (simp add: js_get.simps find_index_plain [OF nd] nl inherited_plain [OF assms])
qed

lemma js_get_JInherited_plain:
  assumes "plain_name k"
  shows "js_get (JInherited p m) k = JUndefined"
proof -
  from assms have nl: "k \<noteq> ''length''" by (simp add: plain_name_def)
  show ?thesis
    by (cases p) (simp_all add: js_get.simps inherited_plain [OF assms] proto_plain [OF assms] nl)
qed

lemma get_prop_spread:
  assumes "plain_name k"
  shows "get_prop (spread raw) k = js_get raw k"
proof (cases raw)
  case (JArr xs)
  from assms have "\<not> set k \<subseteq> set ''0123456789''" by (simp add: plain_name_def)
  with JArr assms show ?thesis by (simp add: get_prop_index_entries js_get_JArr_plain)
next
  case (JStr s)
  from assms have "\<not> set k \<subseteq> set ''0123456789''" by (simp add: plain_name_def)
  with JStr show ?thesis by (simp add: get_prop_index_entries js_get_primitive)
next
  case (JObj kvs)
  with assms show ?thesis by (simp add: js_get_plain)
next
  case (JInherited p m)
  with assms show ?thesis by (simp add: js_get_JInherited_plain get_prop_def)
qed (simp_all add: get_prop_def js_get_primitive)

lemma label_key: "plain_name ''label''"
  by (simp add: plain_name_def Object_prototype_members_def Array_prototype_members_def)

lemma type_key: "plain_name ''type''"
  by (simp add: plain_name_def Object_prototype_members_def Array_prototype_members_def)

lemma dataKey_key: "plain_name ''dataKey''"
  by (simp add: plain_name_def Object_prototype_members_def Array_prototype_members_def)

lemma validation_key: "plain_name ''validation''"
  by (simp add: plain_name_def Object_prototype_members_def Array_prototype_members_def)

lemma errorMessage_key: "plain_name ''errorMessage''"
  by (simp add: plain_name_def Object_prototype_members_def Array_prototype_members_def)

lemma name_key: "plain_name ''name''"
  by (simp add: plain_name_def Object_prototype_members_def Array_prototype_members_def)

lemmas attribute_keys = label_key type_key dataKey_key validation_key errorMessage_key name_key

lemma js_get_field:
  "k \<notin> set Object_prototype_members \<Longrightarrow> js_get (JObj field) k = get_prop field k"
  by (cases "map_of field k") (simp_all add: js_get.simps get_prop_def inherited_def found_on_def)

lemma field_reads:
  "js_get (JObj field) ''label'' = get_prop field ''label''"
  "js_get (JObj field) ''values'' = get_prop field ''values''"
  "js_get (JObj field) ''validation'' = get_prop field ''validation''"
  "js_get (JObj field) ''type'' = get_prop field ''type''"
  by (simp_all add: js_get_field Object_prototype_members_def)

lemma get_prop_localizeLabel:
  "k \<noteq> ''label'' \<Longrightarrow> get_prop (localizeLabel field lang) k = get_prop field k"
  by (simp add: localizeLabel_def get_prop_set_prop)

lemma get_prop_localizeValues:
  "k \<noteq> ''values'' \<Longrightarrow> get_prop (localizeValues field lang) k = get_prop field k"
  by (simp add: localizeValues_def get_prop_set_prop)

lemma get_prop_localizeValidation:
  "k \<noteq> ''validation'' \<Longrightarrow> get_prop (localizeValidation field lang) k = get_prop field k"
  by (simp add: localizeValidation_def get_prop_set_prop)


subsection \<open>Localization and construction\<close>

lemma localizeLabel_label:
  "get_prop (localizeLabel field lang) ''label'' = resolved_label lang (get_prop field ''label'')"
  by (simp add: localizeLabel_def resolved_label_def get_prop_set_prop)

lemma localizeField_cases:
  "localizeField fname raw lang =
     (if label_missing (spread raw) lang then Inl (missing_label fname lang)
      else Inr (localized (spread raw) lang))"
  by (simp add: localizeField_def localized_def Let_def)

lemma localized_other:
  "k \<noteq> ''label'' \<Longrightarrow> k \<noteq> ''values'' \<Longrightarrow> k \<noteq> ''validation'' \<Longrightarrow>
   get_prop (localized field lang) k = get_prop field k"
  by (simp add: localized_def get_prop_localizeLabel get_prop_localizeValues get_prop_localizeValidation)

lemma localized_label:
  "get_prop (localized field lang) ''label'' = resolved_label lang (get_prop field ''label'')"
  by (simp add: localized_def get_prop_localizeValues get_prop_localizeValidation localizeLabel_label)

lemma localized_values:
  "get_prop (localized field lang) ''values'' =
     (if truthy (get_prop field ''values'') \<and> typeof_object (get_prop field ''values'')
         \<and> \<not> isArray (get_prop field ''values'')
      then js_get (get_prop field ''values'') lang else get_prop field ''values'')"
  by (simp add: localized_def get_prop_localizeValidation localizeValues_def get_prop_set_prop
      get_prop_localizeLabel)

lemma base_field_Inr:
  assumes "base_field t vs props = Inr fd"
  shows "get_prop props ''name'' = JStr (name fd) \<and> get_prop props ''dataKey'' = JStr (dataKey fd)
    \<and> get_prop props ''label'' = JStr (label fd) \<and> type fd = t \<and> values fd = vs
    \<and> validation fd = get_prop props ''validation''"
  using assms
  by (auto simp: base_field_def required_string_def split: sum.splits jsval.splits)

lemma base_field_ok:
  assumes "get_prop props ''name'' = JStr n" "get_prop props ''dataKey'' = JStr k"
    "get_prop props ''label'' = JStr l"
  shows "base_field t vs props = Inr \<lparr>name = n, dataKey = k, label = l, type = t, values = vs,
     validation = get_prop props ''validation''\<rparr>"
  using assms by (simp add: base_field_def required_string_def)

lemma constructField_Inr:
  assumes "constructField fname field = Inr fd"
  shows "name fd = fname \<and> get_prop field ''dataKey'' = JStr (dataKey fd)
    \<and> get_prop field ''label'' = JStr (label fd)
    \<and> get_prop field ''type'' = JStr (FieldType_value (type fd))"
  using assms
  by (auto simp: constructField_def StringFieldDefinition_def EnumFieldDefinition_def
      MultipleSelectFieldDefinition_def get_prop_set_prop
      split: if_splits sum.splits dest!: base_field_Inr)


lemma fieldOfEntry_missing:
  assumes "label_missing (spread raw) lang"
  shows "fieldOfEntry lang (fname, raw) = Inl (missing_label fname lang)"
  using assms by (simp add: fieldOfEntry_def localizeField_cases)

lemma fieldOfEntry_present:
  assumes "\<not> label_missing (spread raw) lang"
  shows "fieldOfEntry lang (fname, raw) = constructField fname (localized (spread raw) lang)"
  using assms by (simp add: fieldOfEntry_def localizeField_cases)

lemma fieldOfEntry_Inr:
  assumes "fieldOfEntry lang (fname, raw) = Inr fd"
  shows "name fd = fname \<and> js_get raw ''dataKey'' = JStr (dataKey fd)
    \<and> resolved_label lang (js_get raw ''label'') = JStr (label fd)
    \<and> js_get raw ''type'' = JStr (FieldType_value (type fd))
    \<and> \<not> label_missing (spread raw) lang"
proof -
  have present: "\<not> label_missing (spread raw) lang"
    using assms by (auto simp: fieldOfEntry_def localizeField_cases split: if_splits)
  then have "constructField fname (localized (spread raw) lang) = Inr fd"
    using assms by (simp add: fieldOfEntry_present)
  from constructField_Inr [OF this] present show ?thesis
    by (simp add: localized_other localized_label get_prop_spread attribute_keys)
qed

lemma label_missing_spread:
  "label_missing (spread raw) lang =
     (\<not> truthy (js_get raw ''label'')
      \<or> (typeof_object (js_get raw ''label'') \<and> \<not> truthy (js_get (js_get raw ''label'') lang)))"
  by (simp add: label_missing_def get_prop_spread attribute_keys)


subsection \<open>The two passes\<close>

lemma mapFields_Inr_D:
  "mapFields lang D = Inr fds \<Longrightarrow> list_all2 (\<lambda>entry fd. fieldOfEntry lang entry = Inr fd) D fds"
  by (induction D arbitrary: fds) (auto split: sum.splits)

lemma mapFields_Inr_I:
  "list_all2 (\<lambda>entry fd. fieldOfEntry lang entry = Inr fd) D fds \<Longrightarrow> mapFields lang D = Inr fds"
  by (induction rule: list_all2_induct) auto

lemma mapFields_Inr_iff:
  "mapFields lang D = Inr fds \<longleftrightarrow> list_all2 (\<lambda>entry fd. fieldOfEntry lang entry = Inr fd) D fds"
  using mapFields_Inr_D mapFields_Inr_I by blast

lemma mapFields_length: "mapFields lang D = Inr fds \<Longrightarrow> length fds = length D"
  by (simp add: mapFields_Inr_iff list_all2_lengthD)

lemma mapFields_nth:
  "mapFields lang D = Inr fds \<Longrightarrow> i < length D \<Longrightarrow> fieldOfEntry lang (D ! i) = Inr (fds ! i)"
  by (simp add: mapFields_Inr_iff list_all2_conv_all_nth)

lemma mapFields_append:
  "mapFields lang (pre @ post) =
     (case mapFields lang pre of
        Inl e \<Rightarrow> Inl e
      | Inr fds \<Rightarrow> (case mapFields lang post of Inl e \<Rightarrow> Inl e | Inr fds' \<Rightarrow> Inr (fds @ fds')))"
  by (induction pre) (auto split: sum.splits)

lemma mapFields_failing_entry:
  assumes "entry \<in> set D" "fieldOfEntry lang entry = Inl e"
  shows "\<exists>e'. mapFields lang D = Inl e'"
  using assms by (induction D) (auto split: sum.splits)

lemma mapFields_first_failure:
  assumes "mapFields lang pre = Inr fds" "fieldOfEntry lang entry = Inl e"
  shows "mapFields lang (pre @ entry # post) = Inl e"
  using assms by (simp add: mapFields_append)

lemma checkDataKeys_Inr_iff:
  "checkDataKeys seen fds = Inr u \<longleftrightarrow>
     distinct (map dataKey fds) \<and> (\<forall>fd \<in> set fds. seen (dataKey fd) = None)"
proof (induction fds arbitrary: seen)
  case Nil
  then show ?case by simp
next
  case (Cons fd fds)
  let ?seen' = "seen(dataKey fd \<mapsto> True)"
  have upd: "(\<forall>x \<in> set fds. ?seen' (dataKey x) = None)
      \<longleftrightarrow> dataKey fd \<notin> dataKey ` set fds \<and> (\<forall>x \<in> set fds. seen (dataKey x) = None)"
    by (auto simp: image_iff)
  show ?case
  proof (cases "seen (dataKey fd) = None")
    case True
    have s1: "checkDataKeys seen (fd # fds) = checkDataKeys ?seen' fds"
      using True by simp
    have s2: "(checkDataKeys ?seen' fds = Inr u)
        = (distinct (map dataKey fds) \<and> (\<forall>x \<in> set fds. ?seen' (dataKey x) = None))"
      by (rule Cons.IH)
    show ?thesis
      unfolding s1 s2 upd using True by auto
  next
    case False
    then show ?thesis by auto
  qed
qed

lemma checkDataKeys_Inl:
  assumes "checkDataKeys seen fds = Inl e"
  shows "\<exists>j < length fds. e = duplicate_dataKey (dataKey (fds ! j))
     \<and> (seen (dataKey (fds ! j)) \<noteq> None \<or> dataKey (fds ! j) \<in> set (map dataKey (take j fds)))
     \<and> distinct (map dataKey (take j fds))
     \<and> (\<forall>i < j. seen (dataKey (fds ! i)) = None)"
  using assms
proof (induction fds arbitrary: seen)
  case Nil
  then show ?case by simp
next
  case (Cons fd fds)
  show ?case
  proof (cases "seen (dataKey fd) \<noteq> None")
    case True
    with Cons.prems have "e = duplicate_dataKey (dataKey fd)" by auto
    with True show ?thesis by (intro exI [of _ 0]) auto
  next
    case False
    with Cons.prems have "checkDataKeys (seen(dataKey fd \<mapsto> True)) fds = Inl e" by auto
    from Cons.IH [OF this] obtain j where j: "j < length fds"
      "e = duplicate_dataKey (dataKey (fds ! j))"
      "(seen(dataKey fd \<mapsto> True)) (dataKey (fds ! j)) \<noteq> None
         \<or> dataKey (fds ! j) \<in> set (map dataKey (take j fds))"
      "distinct (map dataKey (take j fds))"
      "\<forall>i < j. (seen(dataKey fd \<mapsto> True)) (dataKey (fds ! i)) = None"
      by blast
    have notin: "dataKey fd \<notin> set (map dataKey (take j fds))"
    proof
      assume "dataKey fd \<in> set (map dataKey (take j fds))"
      then obtain i where "i < j" "i < length fds" "dataKey (fds ! i) = dataKey fd"
        by (auto simp: in_set_conv_nth)
      with j(5) show False by auto
    qed
    have old: "\<forall>i < Suc j. seen (dataKey ((fd # fds) ! i)) = None"
    proof (intro allI impI)
      fix i assume "i < Suc j"
      show "seen (dataKey ((fd # fds) ! i)) = None"
      proof (cases i)
        case 0
        with False show ?thesis by simp
      next
        case (Suc i')
        with \<open>i < Suc j\<close> j(5) have "(seen(dataKey fd \<mapsto> True)) (dataKey (fds ! i')) = None" by simp
        then show ?thesis using Suc by (simp split: if_splits)
      qed
    qed
    have dup: "seen (dataKey (fds ! j)) \<noteq> None
        \<or> dataKey (fds ! j) \<in> set (map dataKey (take (Suc j) (fd # fds)))"
      using j(3) by (auto split: if_splits)
    show ?thesis
      using j(1,2,4) notin old dup by (intro exI [of _ "Suc j"]) auto
  qed
qed

subsection \<open>Valid records are accepted\<close>

lemma valid_label_resolves:
  assumes "valid_label lang l"
  shows "\<exists>s. resolved_label lang l = JStr s \<and> s \<noteq> []"
proof (cases l)
  case (JObj m)
  with assms obtain s where s: "get_prop m lang = JStr s" "s \<noteq> []"
    by (auto simp: valid_label_def split: jsval.splits)
  then have "js_get (JObj m) lang = JStr s" by (simp add: js_get_defined)
  with JObj s show ?thesis by (simp add: resolved_label_def)
qed (use assms in \<open>auto simp: valid_label_def resolved_label_def\<close>)

lemma valid_label_present:
  assumes "valid_label lang (js_get raw ''label'')"
  shows "\<not> label_missing (spread raw) lang"
proof -
  from valid_label_resolves [OF assms] obtain s where
    s: "resolved_label lang (js_get raw ''label'') = JStr s" "s \<noteq> []" by blast
  have t: "truthy (js_get raw ''label'')"
    using assms by (cases "js_get raw ''label''") (auto simp: valid_label_def)
  from s t show ?thesis
    by (auto simp: label_missing_spread resolved_label_def split: if_splits)
qed

lemma nonempty_strings_defined: "nonempty_strings v \<Longrightarrow> v \<noteq> JUndefined"
  by (auto simp: nonempty_strings_def)

lemma valid_values_resolve:
  assumes "valid_values lang v"
  shows "nonempty_strings (if truthy v \<and> typeof_object v \<and> \<not> isArray v then js_get v lang else v)"
proof (cases v)
  case (JObj m)
  with assms have n: "nonempty_strings (get_prop m lang)" by (simp add: valid_values_def)
  from nonempty_strings_defined [OF n] have "js_get (JObj m) lang = get_prop m lang"
    by (rule js_get_defined)
  with JObj n show ?thesis by simp
qed (use assms in \<open>auto simp: valid_values_def\<close>)

lemma required_values_ok:
  assumes "nonempty_strings (get_prop props ''values'')"
  shows "\<exists>vs. required_values props = Inr vs"
  using assms
  by (auto simp: nonempty_strings_def required_values_def split: jsval.splits option.splits list.splits)

lemma fieldOfEntry_valid:
  assumes "valid_record lang raw"
  shows "\<exists>fd. fieldOfEntry lang (fname, raw) = Inr fd"
proof -
  from assms obtain props where raw: "raw = JObj props"
    by (cases raw) (auto simp: valid_record_def)
  let ?f = "localized props lang"
  let ?g = "set_prop ?f ''name'' (JStr fname)"
  from assms raw have vt: "valid_type (get_prop props ''type'')"
    and vl: "valid_label lang (get_prop props ''label'')"
    and vv: "get_prop props ''type'' \<noteq> JStr ''STRING'' \<Longrightarrow> valid_values lang (get_prop props ''values'')"
    and dk: "is_string (get_prop props ''dataKey'')"
    by (auto simp: valid_record_def split: if_splits)
  from vl raw have present: "\<not> label_missing (spread raw) lang"
    using valid_label_present [of lang raw] by (simp add: js_get_plain label_key)
  from valid_label_resolves [OF vl] obtain l where l: "resolved_label lang (get_prop props ''label'') = JStr l"
    by blast
  from dk obtain k where k: "get_prop props ''dataKey'' = JStr k"
    by (cases "get_prop props ''dataKey''") (auto simp: is_string_def)
  have n: "get_prop ?g ''name'' = JStr fname"
    by (simp add: get_prop_set_prop)
  have k': "get_prop ?g ''dataKey'' = JStr k"
    using k by (simp add: get_prop_set_prop localized_other)
  have l': "get_prop ?g ''label'' = JStr l"
    using l by (simp add: get_prop_set_prop localized_label)
  have base: "\<And>t vs. \<exists>fd. base_field t vs ?g = Inr fd"
    using base_field_ok [OF n k' l'] by blast
  have vals: "get_prop props ''type'' \<noteq> JStr ''STRING'' \<Longrightarrow> \<exists>vs. required_values ?g = Inr vs"
  proof -
    assume "get_prop props ''type'' \<noteq> JStr ''STRING''"
    from valid_values_resolve [OF vv [OF this]]
    have "nonempty_strings (get_prop ?g ''values'')"
      by (simp add: get_prop_set_prop localized_values)
    then show ?thesis by (rule required_values_ok)
  qed
  have ty: "get_prop ?f ''type'' = get_prop props ''type''"
    by (simp add: localized_other)
  have "\<exists>fd. constructField fname ?f = Inr fd"
  proof (cases "get_prop props ''type'' = JStr ''STRING''")
    case True
    then show ?thesis
      using base by (simp add: constructField_def ty FieldType_value_def StringFieldDefinition_def)
  next
    case False
    from vals [OF False] obtain vs where vs: "required_values ?g = Inr vs" by blast
    from vt False have "get_prop props ''type'' = JStr ''ENUM'' \<or> get_prop props ''type'' = JStr ''MULTIPLE_SELECT''"
      by (simp add: valid_type_def)
    then show ?thesis
      using base vs
      by (auto simp: constructField_def ty FieldType_value_def EnumFieldDefinition_def
          MultipleSelectFieldDefinition_def)
  qed
  with present raw show ?thesis
    by (simp add: fieldOfEntry_present)
qed

lemma mapFields_valid:
  assumes "list_all (\<lambda>entry. valid_record lang (snd entry)) D"
  shows "\<exists>fds. mapFields lang D = Inr fds"
  using assms
proof (induction D)
  case Nil
  then show ?case by simp
next
  case (Cons entry D)
  then obtain fds where fds: "mapFields lang D = Inr fds" by auto
  from Cons.prems have "valid_record lang (snd entry)" by simp
  from fieldOfEntry_valid [OF this, of "fst entry"] obtain fd where "fieldOfEntry lang entry = Inr fd"
    by auto
  with fds show ?case by simp
qed

lemma mapFields_attributes:
  assumes "mapFields lang D = Inr fds"
  shows "map name fds = map fst D
    \<and> map (\<lambda>fd. JStr (dataKey fd)) fds = map (\<lambda>entry. js_get (snd entry) ''dataKey'') D
    \<and> map (\<lambda>fd. JStr (label fd)) fds = map (\<lambda>entry. resolved_label lang (js_get (snd entry) ''label'')) D"
  using assms
proof (induction D arbitrary: fds)
  case Nil
  then show ?case by simp
next
  case (Cons entry D)
  from Cons.prems obtain fd rest where fds: "fds = fd # rest"
    and fd: "fieldOfEntry lang entry = Inr fd" and rest: "mapFields lang D = Inr rest"
    by (auto split: sum.splits)
  from fd have "fieldOfEntry lang (fst entry, snd entry) = Inr fd" by simp
  from fieldOfEntry_Inr [OF this] Cons.IH [OF rest] fds show ?case by simp
qed

lemma distinct_dataKeys:
  assumes "mapFields lang D = Inr fds"
  shows "distinct (map dataKey fds) \<longleftrightarrow> distinct (map (\<lambda>entry. js_get (snd entry) ''dataKey'') D)"
proof -
  have "distinct (map (\<lambda>fd. JStr (dataKey fd)) fds) = distinct (map dataKey fds)"
    using distinct_map [of JStr "map dataKey fds"] by (simp add: inj_on_def comp_def)
  then show ?thesis
    using mapFields_attributes [OF assms] by simp
qed

lemma parseDocument_JObj:
  "parseDocument (JObj D) lang =
     (case mapFields lang D of
        Inl e \<Rightarrow> Inl e
      | Inr fds \<Rightarrow> (case checkDataKeys Map.empty fds of Inl e \<Rightarrow> Inl e | Inr u \<Rightarrow> Inr fds))"
  by (simp add: parseDocument_def)

subsection \<open>Parsing a document\<close>

lemma parseYamlConfig_JObj:
  assumes "yaml_parse yamlText = Inr (JObj D)"
  shows "parseYamlConfig yaml_parse yamlText lang =
     (case mapFields lang D of
        Inl e \<Rightarrow> Inl e
      | Inr fds \<Rightarrow> (case checkDataKeys Map.empty fds of Inl e \<Rightarrow> Inl e | Inr u \<Rightarrow> Inr fds))"
  using assms by (simp add: parseYamlConfig_def parseDocument_JObj)

lemma parse_distinct:
  assumes "mapFields lang D = Inr fds" "distinct (map dataKey fds)"
  shows "parseDocument (JObj D) lang = Inr fds"
proof -
  have "checkDataKeys Map.empty fds = Inr ()"
    using assms(2) by (simp add: checkDataKeys_Inr_iff)
  with assms(1) show ?thesis by (simp add: parseDocument_JObj)
qed

lemma parse_duplicate:
  assumes "mapFields lang D = Inr fds" "\<not> distinct (map dataKey fds)"
  shows "\<exists>j < length fds. parseDocument (JObj D) lang = Inl (duplicate_dataKey (dataKey (fds ! j)))
     \<and> dataKey (fds ! j) \<in> set (map dataKey (take j fds))
     \<and> distinct (map dataKey (take j fds))"
proof -
  have "checkDataKeys Map.empty fds \<noteq> Inr ()"
    using assms(2) by (simp add: checkDataKeys_Inr_iff)
  then obtain e where e: "checkDataKeys Map.empty fds = Inl e"
    by (cases "checkDataKeys Map.empty fds") auto
  from checkDataKeys_Inl [OF e] obtain j where "j < length fds"
    "e = duplicate_dataKey (dataKey (fds ! j))"
    "dataKey (fds ! j) \<in> set (map dataKey (take j fds))"
    "distinct (map dataKey (take j fds))"
    by auto
  with assms(1) e show ?thesis
    by (intro exI [of _ j]) (simp add: parseDocument_JObj)
qed

lemma parse_Inr:
  assumes "parseDocument (JObj D) lang = Inr fds"
  shows "mapFields lang D = Inr fds \<and> length fds = length D \<and> distinct (map dataKey fds)"
proof -
  from assms have m: "mapFields lang D = Inr fds" and "checkDataKeys Map.empty fds = Inr ()"
    by (auto simp: parseDocument_JObj split: sum.splits)
  then show ?thesis
    by (simp add: checkDataKeys_Inr_iff mapFields_length)
qed

lemma parse_shared_dataKey:
  assumes "i < j" "j < length D"
    "js_get (snd (D ! i)) ''dataKey'' = js_get (snd (D ! j)) ''dataKey''"
  shows "\<exists>e. parseDocument (JObj D) lang = Inl e"
proof (cases "mapFields lang D")
  case (Inl e)
  then show ?thesis by (simp add: parseDocument_JObj)
next
  case (Inr fds)
  have "\<not> distinct (map (\<lambda>entry. js_get (snd entry) ''dataKey'') D)"
  proof
    assume d: "distinct (map (\<lambda>entry. js_get (snd entry) ''dataKey'') D)"
    from assms have "i < length D" by simp
    with assms(2) nth_eq_iff_index_eq [OF d, of i j] assms(3) have "i = j" by simp
    with assms(1) show False by simp
  qed
  then have "\<not> distinct (map dataKey fds)"
    by (simp add: distinct_dataKeys [OF Inr])
  from parse_duplicate [OF Inr this] show ?thesis by blast
qed

lemma parseYamlConfig_valid:
  assumes "yaml_parse yamlText = Inr (JObj D)" and "valid_document D lang"
  shows "\<exists>fds. mapFields lang D = Inr fds
     \<and> parseYamlConfig yaml_parse yamlText lang = Inr fds"
proof -
  from assms(2) obtain fds where fds: "mapFields lang D = Inr fds"
    using mapFields_valid by (auto simp: valid_document_def)
  from assms(2) have "distinct (map dataKey fds)"
    by (simp add: distinct_dataKeys [OF fds] valid_document_def)
  from parse_distinct [OF fds this] assms(1)
  have "parseYamlConfig yaml_parse yamlText lang = Inr fds"
    by (simp add: parseYamlConfig_def)
  with fds show ?thesis by blast
qed

text \<open>C3. A valid schema document, with the language present in every label and
  values mapping, parses: the result has one field definition per entry, in the
  document's key order (each definition carries its entry's key as \<open>name\<close>),
  with pairwise distinct \<open>dataKey\<close>s and the labels of the language.\<close>

theorem valid_document_parses:
  assumes "yaml_parse yamlText = Inr (JObj D)" and "valid_document D lang"
  shows "\<exists>fds. parseYamlConfig yaml_parse yamlText lang = Inr fds
     \<and> length fds = length D
     \<and> map name fds = map fst D
     \<and> distinct (map dataKey fds)
     \<and> map (\<lambda>fd. JStr (label fd)) fds
         = map (\<lambda>entry. resolved_label lang (js_get (snd entry) ''label'')) D"
proof -
  from parseYamlConfig_valid [of yaml_parse yamlText D lang, OF assms] obtain fds where fds: "mapFields lang D = Inr fds"
    and p: "parseYamlConfig yaml_parse yamlText lang = Inr fds"
    by blast
  from p assms(1) have "parseDocument (JObj D) lang = Inr fds"
    by (simp add: parseYamlConfig_def)
  from parse_Inr [OF this] have "length fds = length D" "distinct (map dataKey fds)"
    by simp_all
  with p mapFields_attributes [OF fds] show ?thesis by simp
qed

lemma example_document_valid: "valid_document example_document ''en''"
  by code_simp

theorem valid_document_parses_witness:
  "example_parse ''fields'' = Inr (JObj example_document)
   \<and> valid_document example_document ''en''
   \<and> (\<exists>fds. parseYamlConfig example_parse ''fields'' ''en'' = Inr fds
        \<and> length fds = 2
        \<and> map name fds = [''firstName'', ''country'']
        \<and> distinct (map dataKey fds)
        \<and> map (\<lambda>fd. JStr (label fd)) fds = [JStr ''First name'', JStr ''Country''])"
proof -
  have p: "example_parse ''fields'' = Inr (JObj example_document)"
    by (simp add: example_parse_def)
  have labels: "map (\<lambda>entry. resolved_label ''en'' (js_get (snd entry) ''label'')) example_document
      = [JStr ''First name'', JStr ''Country'']"
    by code_simp
  have names: "map fst example_document = [''firstName'', ''country'']"
    by code_simp
  have len: "length example_document = 2"
    by code_simp
  from valid_document_parses [of example_parse "''fields''" example_document "''en''",
      OF p example_document_valid]
  show ?thesis
    using p example_document_valid by (simp add: labels names len)
qed

text \<open>C4. A document in which two entries have the same \<open>dataKey\<close> does not
  parse. The duplicate check is a second pass: a failure of any entry comes first
  and is the only error; once every entry is constructed, the keys are checked in
  iteration order and the first one that repeats an earlier key is named in a
  configuration error. The result is either that single error or the whole
  sequence, one definition per entry with distinct keys.\<close>

theorem duplicate_dataKey_rejected:
  assumes "yaml_parse yamlText = Inr (JObj D)"
  shows "(\<forall>i j. i < j \<and> j < length D
            \<and> js_get (snd (D ! i)) ''dataKey'' = js_get (snd (D ! j)) ''dataKey''
          \<longrightarrow> (\<exists>e. parseYamlConfig yaml_parse yamlText lang = Inl e))
    \<and> (\<forall>e. mapFields lang D = Inl e \<longrightarrow> parseYamlConfig yaml_parse yamlText lang = Inl e)
    \<and> (\<forall>fds. mapFields lang D = Inr fds \<and> distinct (map dataKey fds)
          \<longrightarrow> parseYamlConfig yaml_parse yamlText lang = Inr fds)
    \<and> (\<forall>fds. mapFields lang D = Inr fds \<and> \<not> distinct (map dataKey fds)
          \<longrightarrow> (\<exists>j < length fds.
                 parseYamlConfig yaml_parse yamlText lang
                   = Inl (duplicate_dataKey (dataKey (fds ! j)))
                 \<and> dataKey (fds ! j) \<in> set (map dataKey (take j fds))
                 \<and> distinct (map dataKey (take j fds))))
    \<and> (\<forall>fds. parseYamlConfig yaml_parse yamlText lang = Inr fds
          \<longrightarrow> mapFields lang D = Inr fds \<and> length fds = length D
              \<and> distinct (map dataKey fds))"
proof -
  have p: "parseYamlConfig yaml_parse yamlText lang = parseDocument (JObj D) lang"
    using assms by (simp add: parseYamlConfig_def)
  have a: "\<forall>i j. i < j \<and> j < length D
            \<and> js_get (snd (D ! i)) ''dataKey'' = js_get (snd (D ! j)) ''dataKey''
          \<longrightarrow> (\<exists>e. parseDocument (JObj D) lang = Inl e)"
    using parse_shared_dataKey by blast
  have b: "\<forall>e. mapFields lang D = Inl e \<longrightarrow> parseDocument (JObj D) lang = Inl e"
    by (simp add: parseDocument_JObj)
  have c: "\<forall>fds. mapFields lang D = Inr fds \<and> distinct (map dataKey fds)
          \<longrightarrow> parseDocument (JObj D) lang = Inr fds"
    using parse_distinct by blast
  have d: "\<forall>fds. mapFields lang D = Inr fds \<and> \<not> distinct (map dataKey fds)
          \<longrightarrow> (\<exists>j < length fds.
                 parseDocument (JObj D) lang = Inl (duplicate_dataKey (dataKey (fds ! j)))
                 \<and> dataKey (fds ! j) \<in> set (map dataKey (take j fds))
                 \<and> distinct (map dataKey (take j fds)))"
    using parse_duplicate by blast
  have e: "\<forall>fds. parseDocument (JObj D) lang = Inr fds
          \<longrightarrow> mapFields lang D = Inr fds \<and> length fds = length D
              \<and> distinct (map dataKey fds)"
    using parse_Inr by blast
  show ?thesis
    unfolding p using a b c d e by blast
qed

lemma duplicate_document_fields: "mapFields ''en'' duplicate_document = Inr duplicate_fields"
  by code_simp

theorem duplicate_dataKey_rejected_witness:
  "parse_to duplicate_document ''fields'' = Inr (JObj duplicate_document)
   \<and> mapFields ''en'' duplicate_document = Inr duplicate_fields
   \<and> \<not> distinct (map dataKey duplicate_fields)
   \<and> parseYamlConfig (parse_to duplicate_document) ''fields'' ''en'' = Inl (duplicate_dataKey ''x'')"
proof -
  have p: "parse_to duplicate_document ''fields'' = Inr (JObj duplicate_document)"
    by (simp add: parse_to_def)
  have nd: "\<not> distinct (map dataKey duplicate_fields)"
    by (simp add: duplicate_fields_def)
  from duplicate_dataKey_rejected [of "parse_to duplicate_document" "''fields''" duplicate_document "''en''", OF p]
    duplicate_document_fields nd
  obtain j where j: "j < length duplicate_fields"
    "parseYamlConfig (parse_to duplicate_document) ''fields'' ''en''
       = Inl (duplicate_dataKey (dataKey (duplicate_fields ! j)))"
    "dataKey (duplicate_fields ! j) \<in> set (map dataKey (take j duplicate_fields))"
    "distinct (map dataKey (take j duplicate_fields))"
    by blast
  from j(1) have "j \<in> {0, 1, 2, 3}"
    by (auto simp: duplicate_fields_def)
  with j(3,4) have "j = 2"
    by (auto simp: duplicate_fields_def take_Suc_conv_app_nth numeral_3_eq_3 numeral_2_eq_2)
  with j(2) have "parseYamlConfig (parse_to duplicate_document) ''fields'' ''en'' = Inl (duplicate_dataKey ''x'')"
    by (simp add: duplicate_fields_def)
  with p duplicate_document_fields nd show ?thesis by simp
qed

lemma parse_failing_entry:
  assumes "fieldOfEntry lang entry = Inl e"
  shows "\<exists>e'. parseDocument (JObj (pre @ entry # post)) lang = Inl e'"
proof -
  have "entry \<in> set (pre @ entry # post)" by simp
  from mapFields_failing_entry [OF this assms] obtain e' where
    "mapFields lang (pre @ entry # post) = Inl e'" by blast
  then show ?thesis by (simp add: parseDocument_JObj)
qed

lemma parse_first_failure:
  assumes "mapFields lang pre = Inr fds" "fieldOfEntry lang entry = Inl e"
  shows "parseDocument (JObj (pre @ entry # post)) lang = Inl e"
  using mapFields_first_failure [OF assms] by (simp add: parseDocument_JObj)

lemma parse_nth_entry:
  assumes "parseDocument (JObj (pre @ entry # post)) lang = Inr fds"
  shows "fieldOfEntry lang entry = Inr (fds ! length pre)"
proof -
  from parse_Inr [OF assms] have "mapFields lang (pre @ entry # post) = Inr fds" by simp
  from mapFields_nth [OF this, of "length pre"] show ?thesis by simp
qed

lemma absent_label_missing:
  assumes "js_get raw ''label'' = JUndefined
    \<or> js_get raw ''label'' = JStr []
    \<or> (\<exists>m. js_get raw ''label'' = JObj m \<and> map_of m lang = None
            \<and> lang \<notin> set Object_prototype_members)"
  shows "label_missing (spread raw) lang"
proof -
  have "js_get (JObj m) lang = JUndefined"
    if "map_of m lang = None" "lang \<notin> set Object_prototype_members" for m
    using that by (simp add: js_get.simps inherited_def found_on_def)
  with assms show ?thesis
    by (auto simp: label_missing_spread)
qed

lemma plain_label_present:
  assumes "js_get raw ''label'' = JStr s" "s \<noteq> []"
  shows "\<not> label_missing (spread raw) lang"
  using assms by (simp add: label_missing_spread)

text \<open>C5, as the code has it. An entry whose \<open>label\<close> is absent, is the empty
  string, or is a mapping without the language key, where the language code is not
  the name of a member that every object inherits, is rejected with the
  configuration error that names the field and the language. Parsing a document
  that holds such an entry fails and yields no definitions; the error is that
  entry's when no earlier entry fails (the first failure ends the parse). A
  non-empty plain-string label passes through unchanged, into the localized record
  and into the field definition.\<close>

theorem missing_label_rejected:
  assumes "yaml_parse yamlText = Inr (JObj (pre @ (fname, raw) # post))"
  shows "(js_get raw ''label'' = JUndefined
            \<or> js_get raw ''label'' = JStr []
            \<or> (\<exists>m. js_get raw ''label'' = JObj m \<and> map_of m lang = None
                    \<and> lang \<notin> set Object_prototype_members)
          \<longrightarrow> fieldOfEntry lang (fname, raw) = Inl (missing_label fname lang)
              \<and> (\<exists>e. parseYamlConfig yaml_parse yamlText lang = Inl e)
              \<and> (\<forall>fds. mapFields lang pre = Inr fds
                    \<longrightarrow> parseYamlConfig yaml_parse yamlText lang = Inl (missing_label fname lang)))
    \<and> (\<forall>s. js_get raw ''label'' = JStr s \<and> s \<noteq> []
          \<longrightarrow> (\<exists>field. localizeField fname raw lang = Inr field \<and> get_prop field ''label'' = JStr s)
              \<and> (\<forall>fd. fieldOfEntry lang (fname, raw) = Inr fd \<longrightarrow> label fd = s)
              \<and> (\<forall>fds. parseYamlConfig yaml_parse yamlText lang = Inr fds
                    \<longrightarrow> label (fds ! length pre) = s))"
proof -
  have p: "parseYamlConfig yaml_parse yamlText lang
      = parseDocument (JObj (pre @ (fname, raw) # post)) lang"
    using assms by (simp add: parseYamlConfig_def)
  have absent: "fieldOfEntry lang (fname, raw) = Inl (missing_label fname lang)
      \<and> (\<exists>e. parseDocument (JObj (pre @ (fname, raw) # post)) lang = Inl e)
      \<and> (\<forall>fds. mapFields lang pre = Inr fds
            \<longrightarrow> parseDocument (JObj (pre @ (fname, raw) # post)) lang = Inl (missing_label fname lang))"
    if "js_get raw ''label'' = JUndefined
        \<or> js_get raw ''label'' = JStr []
        \<or> (\<exists>m. js_get raw ''label'' = JObj m \<and> map_of m lang = None
                \<and> lang \<notin> set Object_prototype_members)"
  proof -
    from absent_label_missing [OF that]
    have f: "fieldOfEntry lang (fname, raw) = Inl (missing_label fname lang)"
      by (rule fieldOfEntry_missing)
    from f parse_failing_entry [OF f] parse_first_failure [OF _ f] show ?thesis by blast
  qed
  have plain: "(\<exists>field. localizeField fname raw lang = Inr field \<and> get_prop field ''label'' = JStr s)
      \<and> (\<forall>fd. fieldOfEntry lang (fname, raw) = Inr fd \<longrightarrow> label fd = s)
      \<and> (\<forall>fds. parseDocument (JObj (pre @ (fname, raw) # post)) lang = Inr fds
            \<longrightarrow> label (fds ! length pre) = s)"
    if "js_get raw ''label'' = JStr s \<and> s \<noteq> []" for s
  proof -
    from that have l: "js_get raw ''label'' = JStr s" and "s \<noteq> []" by simp_all
    then have present: "\<not> label_missing (spread raw) lang" by (rule plain_label_present)
    have "get_prop (localized (spread raw) lang) ''label'' = JStr s"
      using l by (simp add: localized_label get_prop_spread attribute_keys resolved_label_def)
    with present have a: "\<exists>field. localizeField fname raw lang = Inr field
        \<and> get_prop field ''label'' = JStr s"
      by (simp add: localizeField_cases)
    have b: "label fd = s" if "fieldOfEntry lang (fname, raw) = Inr fd" for fd
      using fieldOfEntry_Inr [OF that] l by (simp add: resolved_label_def)
    have c: "label (fds ! length pre) = s"
      if "parseDocument (JObj (pre @ (fname, raw) # post)) lang = Inr fds" for fds
      using parse_nth_entry [OF that] b by blast
    from a b c show ?thesis by blast
  qed
  show ?thesis
    unfolding p using absent plain by blast
qed


lemma get_prop_without_label: "get_prop (without_label props) ''label'' = JUndefined"
proof -
  have "map_of (filter (\<lambda>kv. fst kv \<noteq> ''label'') props) ''label'' = None"
    by (induction props) auto
  then show ?thesis by (simp add: get_prop_def without_label_def)
qed

text \<open>C10. An entry whose \<open>label\<close> is the empty string, or a mapping holding
  the empty string for the language, is rejected with the missing-label error,
  exactly as the same entry without a label is: the document fails to parse, with
  the same outcome as the document in which that label is absent, and with the
  missing-label error for the field when no earlier entry fails.\<close>

theorem empty_label_is_missing:
  assumes "yaml_parse yamlText = Inr (JObj (pre @ (fname, JObj props) # post))"
    and "get_prop props ''label'' = JStr []
         \<or> (\<exists>m. get_prop props ''label'' = JObj m \<and> get_prop m lang = JStr [])"
  shows "fieldOfEntry lang (fname, JObj props) = Inl (missing_label fname lang)
    \<and> fieldOfEntry lang (fname, JObj (without_label props)) = Inl (missing_label fname lang)
    \<and> parseYamlConfig yaml_parse yamlText lang
        = parseDocument (JObj (pre @ (fname, JObj (without_label props)) # post)) lang
    \<and> (\<exists>e. parseYamlConfig yaml_parse yamlText lang = Inl e)
    \<and> (\<forall>fds. mapFields lang pre = Inr fds
          \<longrightarrow> parseYamlConfig yaml_parse yamlText lang = Inl (missing_label fname lang))"
proof -
  have p: "parseYamlConfig yaml_parse yamlText lang
      = parseDocument (JObj (pre @ (fname, JObj props) # post)) lang"
    using assms(1) by (simp add: parseYamlConfig_def)
  have "label_missing (spread (JObj props)) lang"
    using assms(2) by (auto simp: label_missing_def js_get_defined)
  then have f: "fieldOfEntry lang (fname, JObj props) = Inl (missing_label fname lang)"
    by (rule fieldOfEntry_missing)
  have "label_missing (spread (JObj (without_label props))) lang"
    by (simp add: label_missing_def get_prop_without_label)
  then have f': "fieldOfEntry lang (fname, JObj (without_label props)) = Inl (missing_label fname lang)"
    by (rule fieldOfEntry_missing)
  have same: "mapFields lang (pre @ (fname, JObj props) # post)
      = mapFields lang (pre @ (fname, JObj (without_label props)) # post)"
  proof -
    have a: "mapFields lang ((fname, JObj props) # post) = Inl (missing_label fname lang)"
      using f by simp
    have b: "mapFields lang ((fname, JObj (without_label props)) # post)
        = Inl (missing_label fname lang)"
      using f' by simp
    show ?thesis
      by (simp only: mapFields_append a b)
  qed
  have s: "parseDocument (JObj (pre @ (fname, JObj props) # post)) lang
      = parseDocument (JObj (pre @ (fname, JObj (without_label props)) # post)) lang"
    by (simp add: parseDocument_JObj same)
  from parse_failing_entry [OF f] have g: "\<exists>e. parseDocument (JObj (pre @ (fname, JObj props) # post)) lang = Inl e" .
  have h: "parseDocument (JObj (pre @ (fname, JObj props) # post)) lang = Inl (missing_label fname lang)"
    if "mapFields lang pre = Inr fds" for fds
    using parse_first_failure [OF that f] .
  show ?thesis
    unfolding p using f f' s g h by blast
qed

lemma partial_first_fields:
  "mapFields ''fr'' [partial_first]
     = Inr [\<lparr>name = ''firstName'', dataKey = ''firstName'', label = ''Prenom'', type = String,
             values = [], validation = JUndefined\<rparr>]"
  by code_simp

lemma plain_label_parse:
  "parseYamlConfig (parse_to [string_field ''a'' (JStr ''A'') ''x'']) ''fields'' ''en''
     = Inr [\<lparr>name = ''a'', dataKey = ''x'', label = ''A'', type = String,
             values = [], validation = JUndefined\<rparr>]"
  by code_simp

theorem missing_label_rejected_witness:
  "parse_to partial_document ''fields''
     = Inr (JObj ([partial_first] @ (''country'', partial_country) # []))
   \<and> (\<exists>m. js_get partial_country ''label'' = JObj m \<and> map_of m ''fr'' = None
          \<and> ''fr'' \<notin> set Object_prototype_members)
   \<and> parseYamlConfig (parse_to partial_document) ''fields'' ''fr''
       = Inl (missing_label ''country'' ''fr'')
   \<and> js_get (JObj (string_props (JStr []) ''a'')) ''label'' = JStr []
   \<and> parseYamlConfig (parse_to empty_label_document) ''fields'' ''en''
       = Inl (missing_label ''a'' ''en'')
   \<and> js_get (JObj (string_props (JStr ''A'') ''x'')) ''label'' = JStr ''A''
   \<and> (\<exists>fds. parseYamlConfig (parse_to [string_field ''a'' (JStr ''A'') ''x'']) ''fields'' ''en''
          = Inr fds \<and> label (fds ! 0) = ''A'')"
proof -
  have p: "parse_to partial_document ''fields''
      = Inr (JObj ([partial_first] @ (''country'', partial_country) # []))"
    by (simp add: parse_to_def partial_document_def)
  have l: "\<exists>m. js_get partial_country ''label'' = JObj m \<and> map_of m ''fr'' = None
      \<and> ''fr'' \<notin> set Object_prototype_members"
    by (simp add: partial_country_def js_get.simps Object_prototype_members_def)
  from missing_label_rejected [of "parse_to partial_document" "''fields''" "[partial_first]"
      "''country''" partial_country "[]" "''fr''", OF p] l partial_first_fields
  have a: "parseYamlConfig (parse_to partial_document) ''fields'' ''fr''
      = Inl (missing_label ''country'' ''fr'')"
    by blast
  have r: "parse_to empty_label_document ''fields''
      = Inr (JObj ([] @ (''a'', JObj (string_props (JStr []) ''a'')) # []))"
    by (simp add: parse_to_def empty_label_document_def string_field_def)
  have e: "js_get (JObj (string_props (JStr []) ''a'')) ''label'' = JStr []"
    by (simp add: string_props_def js_get.simps)
  have none: "mapFields ''en'' [] = Inr []" by simp
  from missing_label_rejected [of "parse_to empty_label_document" "''fields''" "[]" "''a''"
      "JObj (string_props (JStr []) ''a'')" "[]" "''en''", OF r] e none
  have c: "parseYamlConfig (parse_to empty_label_document) ''fields'' ''en''
      = Inl (missing_label ''a'' ''en'')"
    by blast
  have q: "parse_to [string_field ''a'' (JStr ''A'') ''x''] ''fields''
      = Inr (JObj ([] @ (''a'', JObj (string_props (JStr ''A'') ''x'')) # []))"
    by (simp add: parse_to_def string_field_def)
  have s: "js_get (JObj (string_props (JStr ''A'') ''x'')) ''label'' = JStr ''A''"
    by (simp add: string_props_def js_get.simps)
  from missing_label_rejected [of "parse_to [string_field ''a'' (JStr ''A'') ''x'']" "''fields''"
      "[]" "''a''" "JObj (string_props (JStr ''A'') ''x'')" "[]" "''en''", OF q] s plain_label_parse
  have b: "\<exists>fds. parseYamlConfig (parse_to [string_field ''a'' (JStr ''A'') ''x'']) ''fields'' ''en''
          = Inr fds \<and> label (fds ! 0) = ''A''"
    by simp
  from p l a e c s b show ?thesis by blast
qed

text \<open>An empty plain-string label does not pass through, and an entry without a
  label that follows an entry with an invalid type is not the one the error names.\<close>

theorem missing_label_counterexample:
  "js_get (JObj (string_props (JStr []) ''a'')) ''label'' = JStr []
   \<and> parseYamlConfig (parse_to empty_label_document) ''fields'' ''en''
       = Inl (missing_label ''a'' ''en'')
   \<and> js_get unlabelled_record ''label'' = JUndefined
   \<and> parseYamlConfig (parse_to bad_type_document) ''fields'' ''en''
       = Inl (invalid_type ''a'' (JStr ''BOGUS''))"
proof -
  have a: "js_get (JObj (string_props (JStr []) ''a'')) ''label'' = JStr []"
    by code_simp
  have b: "parseYamlConfig (parse_to empty_label_document) ''fields'' ''en''
       = Inl (missing_label ''a'' ''en'')"
    by code_simp
  have c: "js_get unlabelled_record ''label'' = JUndefined"
    by code_simp
  have d: "parseYamlConfig (parse_to bad_type_document) ''fields'' ''en''
       = Inl (invalid_type ''a'' (JStr ''BOGUS''))"
    by code_simp
  from a b c d show ?thesis by blast
qed



theorem empty_label_is_missing_witness:
  "parse_to empty_label_document ''fields''
     = Inr (JObj ([] @ (''a'', JObj (string_props (JStr []) ''a'')) # []))
   \<and> get_prop (string_props (JStr []) ''a'') ''label'' = JStr []
   \<and> parseYamlConfig (parse_to empty_label_document) ''fields'' ''en''
       = Inl (missing_label ''a'' ''en'')
   \<and> parseDocument (JObj [(''a'', JObj (without_label (string_props (JStr []) ''a'')))]) ''en''
       = Inl (missing_label ''a'' ''en'')
   \<and> parse_to empty_translation_document ''fields''
       = Inr (JObj ([] @ (''a'', JObj (string_props (JObj [(''en'', JStr ''A''), (''es'', JStr [])]) ''a'')) # []))
   \<and> parseYamlConfig (parse_to empty_translation_document) ''fields'' ''es''
       = Inl (missing_label ''a'' ''es'')"
proof -
  have p: "parse_to empty_label_document ''fields''
     = Inr (JObj ([] @ (''a'', JObj (string_props (JStr []) ''a'')) # []))"
    by (simp add: parse_to_def empty_label_document_def string_field_def)
  have l: "get_prop (string_props (JStr []) ''a'') ''label'' = JStr []"
    by (simp add: string_props_def get_prop_def)
  have m: "mapFields ''en'' [] = Inr []" by simp
  from empty_label_is_missing [of "parse_to empty_label_document" "''fields''" "[]" "''a''"
      "string_props (JStr []) ''a''" "[]" "''en''", OF p] l m
  have a: "parseYamlConfig (parse_to empty_label_document) ''fields'' ''en''
        = Inl (missing_label ''a'' ''en'')"
    and b: "parseYamlConfig (parse_to empty_label_document) ''fields'' ''en''
        = parseDocument (JObj ([] @ (''a'', JObj (without_label (string_props (JStr []) ''a''))) # [])) ''en''"
    by blast+
  have q: "parse_to empty_translation_document ''fields''
       = Inr (JObj ([] @ (''a'', JObj (string_props (JObj [(''en'', JStr ''A''), (''es'', JStr [])]) ''a'')) # []))"
    by (simp add: parse_to_def empty_translation_document_def string_field_def)
  have l2: "\<exists>m. get_prop (string_props (JObj [(''en'', JStr ''A''), (''es'', JStr [])]) ''a'') ''label'' = JObj m
      \<and> get_prop m ''es'' = JStr []"
    by (simp add: string_props_def get_prop_def)
  from empty_label_is_missing [of "parse_to empty_translation_document" "''fields''" "[]" "''a''"
      "string_props (JObj [(''en'', JStr ''A''), (''es'', JStr [])]) ''a''" "[]" "''es''", OF q] l2
  have c: "parseYamlConfig (parse_to empty_translation_document) ''fields'' ''es''
       = Inl (missing_label ''a'' ''es'')"
    using mapFields.simps(1) by blast
  from p l a b q c show ?thesis by simp
qed

section \<open>Properties of the localizer on a store\<close>

lemma take_alloc: "n \<le> length h \<Longrightarrow> take n (snd (alloc h obj)) = take n h"
  by (simp add: alloc_def)

lemma length_alloc: "length (snd (alloc h obj)) = Suc (length h)"
  by (simp add: alloc_def)

lemma fst_alloc: "fst (alloc h obj) = length h"
  by (simp add: alloc_def)

lemma length_h_write: "length (h_write h a k v) = length h"
  by (simp add: h_write_def split: hobj.split)

lemma take_h_write: "n \<le> a \<Longrightarrow> take n (h_write h a k v) = take n h"
  by (simp add: h_write_def split: hobj.split)

lemma localizeLabel_h_frame:
  "length (localizeLabel_h field lang h) = length h
   \<and> (n \<le> field \<longrightarrow> take n (localizeLabel_h field lang h) = take n h)"
  by (simp add: localizeLabel_h_def length_h_write take_h_write)

lemma localizeValues_h_frame:
  "length (localizeValues_h field lang h) = length h
   \<and> (n \<le> field \<longrightarrow> take n (localizeValues_h field lang h) = take n h)"
  by (simp add: localizeValues_h_def length_h_write take_h_write)

lemma localizeValidation_h_frame:
  "length h \<le> length (localizeValidation_h field lang h)
   \<and> (n \<le> field \<and> field < length h \<longrightarrow> take n (localizeValidation_h field lang h) = take n h)"
  by (simp add: localizeValidation_h_def alloc_def length_h_write take_h_write)

lemma localizeField_h_frame:
  "length h \<le> length (fst (localizeField_h fname rawField lang h))
   \<and> take (length h) (fst (localizeField_h fname rawField lang h)) = h"
proof -
  let ?h1 = "h @ [HObject (h_spread h rawField)]"
  let ?h2 = "localizeLabel_h (length h) lang ?h1"
  let ?h3 = "localizeValues_h (length h) lang ?h2"
  let ?h4 = "localizeValidation_h (length h) lang ?h3"
  have l2: "length ?h2 = Suc (length h)" and t2: "take (length h) ?h2 = h"
    using localizeLabel_h_frame [of "length h" lang ?h1 "length h"] by simp_all
  have l3: "length ?h3 = Suc (length h)" and t3: "take (length h) ?h3 = h"
    using localizeValues_h_frame [of "length h" lang ?h2 "length h"] l2 t2 by simp_all
  have l4: "length ?h3 \<le> length ?h4" and t4: "take (length h) ?h4 = h"
    using localizeValidation_h_frame [of ?h3 "length h" lang "length h"] l3 t3 by simp_all
  show ?thesis
    using l3 l4 t4 by (simp add: localizeField_h_def alloc_def)
qed

lemma localizeEntries_h_frame:
  "length h \<le> length (fst (localizeEntries_h lang entries h))
   \<and> take (length h) (fst (localizeEntries_h lang entries h)) = h"
proof (induction entries arbitrary: h)
  case Nil
  then show ?case by simp
next
  case (Cons entry entries)
  obtain h1 r where f: "localizeField_h (fst entry) (snd entry) lang h = (h1, r)"
    by (cases "localizeField_h (fst entry) (snd entry) lang h")
  from localizeField_h_frame [of h "fst entry" "snd entry" lang] f
  have l1: "length h \<le> length h1" and t1: "take (length h) h1 = h" by simp_all
  show ?case
  proof (cases r)
    case (Inl e)
    with f l1 t1 show ?thesis by simp
  next
    case (Inr field)
    obtain h2 r2 where g: "localizeEntries_h lang entries h1 = (h2, r2)"
      by (cases "localizeEntries_h lang entries h1")
    from Cons.IH [of h1] g have l2: "length h1 \<le> length h2" and t2: "take (length h1) h2 = h1"
      by simp_all
    have "take (length h) h2 = take (length h) (take (length h1) h2)"
      using l1 by (simp add: min_def)
    with t1 t2 have t: "take (length h) h2 = h" by simp
    from l1 l2 have l: "length h \<le> length h2" by simp
    from f Inr g l t show ?thesis
      by (cases r2) simp_all
  qed
qed

lemma closed_heap_members:
  assumes "closed_heap h" "a < length h" "v \<in> set (members (h ! a))"
  shows "in_heap h v"
  using assms by (auto simp: closed_heap_def list_all_iff)

lemma reify_append:
  assumes "closed_heap h" "in_heap h v"
  shows "reify n (h @ ext) v = reify n h v"
  using assms(2)
proof (induction n arbitrary: v)
  case 0
  then show ?case by (cases v) simp_all
next
  case (Suc n)
  show ?case
  proof (cases v)
    case (HRef a)
    with Suc.prems have a: "a < length h" by simp
    have inner: "reify n (h @ ext) w = reify n h w" if "w \<in> set (members (h ! a))" for w
      using closed_heap_members [OF assms(1) a that] by (rule Suc.IH)
    show ?thesis
    proof (cases "h ! a")
      case (HObject kvs)
      with inner have "\<And>kv. kv \<in> set kvs \<Longrightarrow> reify n (h @ ext) (snd kv) = reify n h (snd kv)"
        by simp
      with HRef a HObject show ?thesis
        by (simp add: nth_append)
    next
      case (HArray xs)
      with inner have "\<And>x. x \<in> set xs \<Longrightarrow> reify n (h @ ext) x = reify n h x"
        by simp
      with HRef a HArray show ?thesis
        by (simp add: nth_append)
    qed
  qed simp_all
qed

lemma reify_frame:
  assumes "closed_heap h" "in_heap h v" "take (length h) h' = h"
  shows "reify n h' v = reify n h v"
proof -
  from assms(3) have "h' = h @ drop (length h) h'"
    by (metis append_take_drop_id)
  then show ?thesis
    using reify_append [OF assms(1,2), of n "drop (length h) h'"] by simp
qed

text \<open>C9. Localizing a raw field record leaves every object that existed before
  the call as it was, whether the localization succeeds or throws, and so does a
  whole run over a document's entries: all writes go to the copies made on the way.
  In a store without dangling references, every value reads the same after the call
  as before, to any depth: the raw document is structurally identical.\<close>

theorem localization_preserves_input:
  assumes "closed_heap h" and "in_heap h v"
  shows "take (length h) (fst (localizeField_h fname rawField lang h)) = h
    \<and> reify n (fst (localizeField_h fname rawField lang h)) v = reify n h v
    \<and> take (length h) (fst (localizeEntries_h lang entries h)) = h
    \<and> reify n (fst (localizeEntries_h lang entries h)) v = reify n h v"
proof -
  have a: "take (length h) (fst (localizeField_h fname rawField lang h)) = h"
    using localizeField_h_frame by blast
  have b: "take (length h) (fst (localizeEntries_h lang entries h)) = h"
    using localizeEntries_h_frame by blast
  from a b reify_frame [OF assms a] reify_frame [OF assms b] show ?thesis by simp
qed

lemma example_heap_localized:
  "localizeField_h ''firstName'' (HRef 3) ''es'' example_heap
     = (example_heap @
          [HObject [(''type'', HStr ''STRING''), (''label'', HStr ''Nombre''),
                    (''validation'', HRef 6), (''dataKey'', HStr ''firstName'')],
           HObject [(''errorMessage'', HStr ''Obligatorio''), (''pattern'', HStr ''.+'')]],
        Inr 5)"
  by code_simp

theorem localization_preserves_input_witness:
  "closed_heap example_heap
   \<and> in_heap example_heap (HRef 4)
   \<and> snd (localizeField_h ''firstName'' (HRef 3) ''es'' example_heap) = Inr 5
   \<and> length (fst (localizeField_h ''firstName'' (HRef 3) ''es'' example_heap)) = 7
   \<and> take (length example_heap) (fst (localizeField_h ''firstName'' (HRef 3) ''es'' example_heap))
       = example_heap
   \<and> reify 4 (fst (localizeField_h ''firstName'' (HRef 3) ''es'' example_heap)) (HRef 4)
       = reify 4 example_heap (HRef 4)"
proof -
  have c: "closed_heap example_heap" by code_simp
  have i: "in_heap example_heap (HRef 4)" by code_simp
  have l: "length (fst (localizeField_h ''firstName'' (HRef 3) ''es'' example_heap)) = 7"
    by (simp add: example_heap_localized) (simp add: example_heap_def)
  from localization_preserves_input [OF c i, of "''firstName''" "HRef 3" "''es''" 4 "[]"]
    c i l
  show ?thesis by (simp add: example_heap_localized)
qed

lemma complete_Suc: "complete n h v \<Longrightarrow> complete (Suc n) h v \<and> reify (Suc n) h v = reify n h v"
proof (induction n arbitrary: v)
  case 0
  then show ?case by (cases v) simp_all
next
  case (Suc n)
  show ?case
  proof (cases v)
    case (HRef a)
    with Suc.prems have a: "a < length h" and m: "list_all (complete n h) (members (h ! a))"
      by simp_all
    from m Suc.IH have m': "list_all (complete (Suc n) h) (members (h ! a))"
      and r: "\<And>w. w \<in> set (members (h ! a)) \<Longrightarrow> reify (Suc n) h w = reify n h w"
      by (auto simp: list_all_iff)
    show ?thesis
    proof (cases "h ! a")
      case (HObject kvs)
      with r have "\<And>kv. kv \<in> set kvs \<Longrightarrow> reify (Suc n) h (snd kv) = reify n h (snd kv)" by simp
      with HRef a m' HObject show ?thesis by simp
    next
      case (HArray xs)
      with r have "\<And>x. x \<in> set xs \<Longrightarrow> reify (Suc n) h x = reify n h x" by simp
      with HRef a m' HArray show ?thesis by simp
    qed
  qed simp_all
qed

lemma truthy_reify: "complete n h v \<Longrightarrow> truthy (reify n h v) = h_truthy v"
  by (cases v; cases n) (auto split: hobj.splits)

lemma typeof_object_reify: "complete n h v \<Longrightarrow> typeof_object (reify n h v) = h_typeof_object v"
  by (cases v; cases n) (auto split: hobj.splits)

lemma isArray_reify: "complete n h v \<Longrightarrow> isArray (reify n h v) = h_isArray h v"
  by (cases v; cases n) (auto simp: h_isArray_def split: hobj.splits)

lemma get_prop_map_reify:
  "get_prop (map (reify_kv n h) kvs) k = reify n h (h_lookup kvs k)"
  by (induction kvs) (auto simp: get_prop_def h_lookup_def reify_kv_def)

lemma set_prop_map_reify:
  "set_prop (map (reify_kv n h) kvs) k (reify n h v) = map (reify_kv n h) (h_update kvs k v)"
  by (induction kvs) (auto simp: reify_kv_def)

lemma h_lookup_h_update:
  "h_lookup (h_update kvs k v) k' = (if k' = k then v else h_lookup kvs k')"
  by (induction kvs) (auto simp: h_lookup_def)

lemma spread_reify:
  assumes "complete (Suc n) h v"
  shows "spread (reify (Suc n) h v) = map (reify_kv n h) (h_spread h v)"
proof (cases v)
  case (HRef a)
  with assms have a: "a < length h" by simp
  show ?thesis
  proof (cases "h ! a")
    case (HObject kvs)
    with HRef a show ?thesis by (simp add: h_spread_def reify_kv_def [abs_def])
  next
    case (HArray xs)
    with HRef a show ?thesis
      by (simp add: h_spread_def reify_kv_def [abs_def] index_entries_def zip_map2 split_def)
  qed
next
  case (HStr s)
  then show ?thesis
    by (simp add: h_spread_def reify_kv_def [abs_def] index_entries_def zip_map2 split_def comp_def)
qed (simp_all add: h_spread_def)

lemma complete_member:
  assumes "complete (Suc n) h (HRef a)" "w \<in> set (members (h ! a))"
  shows "complete n h w"
  using assms by (auto simp: list_all_iff)

lemma complete_h_lookup:
  assumes "list_all (complete n h) (map snd kvs)"
  shows "complete n h (h_lookup kvs k)"
proof (cases "map_of kvs k")
  case None
  then show ?thesis by (simp add: h_lookup_def)
next
  case (Some w)
  then have "w \<in> snd ` set kvs" by (metis map_of_SomeD image_eqI snd_conv)
  with assms Some show ?thesis by (auto simp: h_lookup_def list_all_iff)
qed

lemma h_inherited_leaf: "h_inherited p k \<noteq> HRef a"
  by (simp add: h_inherited_def split: option.split)

lemma reify_h_inherited: "reify n h (h_inherited p k) = inherited p k"
  by (simp add: h_inherited_def inherited_def split: option.split)

lemma find_index_bound:
  "find (\<lambda>i. show_nat i = k) [0..<n] = Some i \<Longrightarrow> i < n"
  by (auto simp: find_Some_iff)

lemma h_get_member:
  "(\<exists>a. v = HRef a \<and> a < length h \<and> h_get h v k \<in> set (members (h ! a)))
   \<or> (\<forall>a. h_get h v k \<noteq> HRef a)"
proof (cases v)
  case (HRef a)
  show ?thesis
  proof (cases "a < length h")
    case True
    show ?thesis
    proof (cases "h ! a")
      case (HObject kvs)
      show ?thesis
      proof (cases "map_of kvs k")
        case None
        with HRef True HObject show ?thesis by (simp add: h_get_def h_inherited_leaf)
      next
        case (Some w)
        then have "w \<in> snd ` set kvs" by (metis map_of_SomeD image_eqI snd_conv)
        with HRef True HObject Some show ?thesis by (simp add: h_get_def)
      qed
    next
      case (HArray xs)
      show ?thesis
      proof (cases "find (\<lambda>i. show_nat i = k) [0..<length xs]")
        case None
        with HRef True HArray show ?thesis by (simp add: h_get_def h_inherited_leaf)
      next
        case (Some i)
        from find_index_bound [OF Some] have "xs ! i \<in> set xs" by simp
        with HRef True HArray Some show ?thesis by (simp add: h_get_def)
      qed
    qed
  next
    case False
    with HRef show ?thesis by (simp add: h_get_def)
  qed
next
  case (HInherited p m)
  then show ?thesis by (cases p) (simp_all add: h_get_def h_inherited_leaf)
qed (simp_all add: h_get_def)

lemma complete_leaf: "\<forall>a. w \<noteq> HRef a \<Longrightarrow> complete n h w"
  by (cases w) simp_all

lemma in_heap_leaf: "\<forall>a. w \<noteq> HRef a \<Longrightarrow> in_heap h w"
  by (cases w) simp_all

lemma complete_h_get:
  assumes "complete (Suc n) h v"
  shows "complete n h (h_get h v k)"
proof -
  from h_get_member [of v h k] show ?thesis
  proof
    assume "\<exists>a. v = HRef a \<and> a < length h \<and> h_get h v k \<in> set (members (h ! a))"
    with assms show ?thesis by (auto simp: list_all_iff)
  next
    assume "\<forall>a. h_get h v k \<noteq> HRef a"
    then show ?thesis by (rule complete_leaf)
  qed
qed

lemma map_of_reify:
  "map_of (map (\<lambda>kv. (fst kv, reify n h (snd kv))) kvs) k = map_option (reify n h) (map_of kvs k)"
  by (induction kvs) auto

lemma js_get_reify_leaf:
  assumes "\<forall>a. v \<noteq> HRef a"
  shows "js_get (reify n h v) k = reify n' h (h_get h v k)"
proof (cases v)
  case (HRef a)
  with assms show ?thesis by simp
next
  case (HInherited p m)
  then show ?thesis
    by (cases p) (simp_all add: js_get.simps h_get_def reify_h_inherited)
qed (simp_all add: js_get_primitive h_get_def)

lemma js_get_reify:
  assumes "complete (Suc n) h v"
  shows "js_get (reify (Suc n) h v) k = reify n h (h_get h v k)"
proof (cases v)
  case (HRef a)
  with assms have a: "a < length h" by simp
  show ?thesis
  proof (cases "h ! a")
    case (HObject kvs)
    with HRef a show ?thesis
      by (cases "map_of kvs k")
        (simp_all add: h_get_def js_get.simps map_of_reify reify_h_inherited)
  next
    case (HArray xs)
    show ?thesis
    proof (cases "find (\<lambda>i. show_nat i = k) [0..<length xs]")
      case None
      with HRef a HArray show ?thesis
        by (simp add: h_get_def js_get.simps reify_h_inherited)
    next
      case (Some i)
      from find_index_bound [OF Some] have "i < length xs" .
      with HRef a HArray Some show ?thesis
        by (simp add: h_get_def js_get.simps)
    qed
  qed
next
  case (HInherited p m)
  then show ?thesis using js_get_reify_leaf [of v "Suc n" h k n] by simp
qed (simp_all add: js_get_primitive h_get_def)

lemma h_get_append: "in_heap h w \<Longrightarrow> h_get (h @ ext) w k = h_get h w k"
  by (cases w) (simp_all add: h_get_def nth_append)

lemma h_spread_append: "in_heap h w \<Longrightarrow> h_spread (h @ ext) w = h_spread h w"
  by (cases w) (simp_all add: h_spread_def nth_append)

lemma h_isArray_append: "in_heap h w \<Longrightarrow> h_isArray (h @ ext) w = h_isArray h w"
  by (cases w) (simp_all add: h_isArray_def nth_append)

lemma h_get_copy:
  assumes "k \<notin> set Object_prototype_members"
  shows "h_get (h @ HObject kvs # ext) (HRef (length h)) k = h_lookup kvs k"
  using assms
  by (cases "map_of kvs k")
    (simp_all add: h_get_def nth_append h_lookup_def h_inherited_def found_on_def)

lemma label_own: "''label'' \<notin> set Object_prototype_members"
  by (simp add: Object_prototype_members_def)

lemma values_own: "''values'' \<notin> set Object_prototype_members"
  by (simp add: Object_prototype_members_def)

lemma validation_own: "''validation'' \<notin> set Object_prototype_members"
  by (simp add: Object_prototype_members_def)

lemmas h_get_field = h_get_copy [OF label_own] h_get_copy [OF values_own]
  h_get_copy [OF validation_own]

lemma h_write_copy:
  "h_write (h @ HObject kvs # ext) (length h) k v = h @ HObject (h_update kvs k v) # ext"
  by (simp add: h_write_def nth_append list_update_append)

lemma in_heap_h_lookup:
  assumes "list_all (in_heap h) (map snd kvs)"
  shows "in_heap h (h_lookup kvs k)"
proof (cases "map_of kvs k")
  case None
  then show ?thesis by (simp add: h_lookup_def)
next
  case (Some w)
  then have "w \<in> snd ` set kvs" by (metis map_of_SomeD image_eqI snd_conv)
  with assms Some show ?thesis by (auto simp: h_lookup_def list_all_iff)
qed

lemma in_heap_h_spread:
  assumes "closed_heap h" "in_heap h v"
  shows "list_all (in_heap h) (map snd (h_spread h v))"
proof (cases v)
  case (HRef a)
  with assms(2) have a: "a < length h" by simp
  have m: "list_all (in_heap h) (members (h ! a))"
    using closed_heap_members [OF assms(1) a] by (simp add: list_all_iff)
  show ?thesis
  proof (cases "h ! a")
    case (HObject kvs)
    with HRef a m show ?thesis by (simp add: h_spread_def)
  next
    case (HArray xs)
    have "set (map snd (zip (map show_nat [0..<length xs]) xs)) \<subseteq> set xs"
      by (auto dest: set_zip_rightD)
    with HRef a m HArray show ?thesis by (auto simp: h_spread_def list_all_iff)
  qed
next
  case (HStr s)
  have "\<And>w. w \<in> set (map snd (zip (map show_nat [0..<length s]) (map (\<lambda>c. HStr [c]) s)))
      \<Longrightarrow> in_heap h w"
    by (auto dest!: set_zip_rightD)
  with HStr show ?thesis by (simp add: h_spread_def list_all_iff)
qed (simp_all add: h_spread_def)

lemma in_heap_h_get:
  assumes "closed_heap h" "in_heap h v"
  shows "in_heap h (h_get h v k)"
proof -
  from h_get_member [of v h k] show ?thesis
  proof
    assume "\<exists>a. v = HRef a \<and> a < length h \<and> h_get h v k \<in> set (members (h ! a))"
    then obtain a where "a < length h" "h_get h v k \<in> set (members (h ! a))" by blast
    then show ?thesis by (rule closed_heap_members [OF assms(1)])
  next
    assume "\<forall>a. h_get h v k \<noteq> HRef a"
    then show ?thesis by (rule in_heap_leaf)
  qed
qed

lemma list_all_h_update:
  assumes "list_all P (map snd kvs)" "P v"
  shows "list_all P (map snd (h_update kvs k v))"
  using assms by (induction kvs) auto

lemma h_label_missing_copy:
  assumes "list_all (in_heap h) (map snd kvs)"
  shows "h_label_missing (h @ [HObject kvs]) (length h) lang = label_unresolved h kvs lang"
  using in_heap_h_lookup [OF assms, of "''label''"]
  by (simp add: h_label_missing_def label_unresolved_def h_get_field h_get_append)

lemma localizeLabel_h_copy:
  assumes "list_all (in_heap h) (map snd kvs)"
  shows "localizeLabel_h (length h) lang (h @ [HObject kvs]) = h @ [HObject (labelled_props h kvs lang)]"
  using in_heap_h_lookup [OF assms, of "''label''"]
  by (simp add: localizeLabel_h_def labelled_props_def h_get_field h_get_append h_write_copy)

lemma localizeValues_h_copy:
  assumes "list_all (in_heap h) (map snd kvs)"
  shows "localizeValues_h (length h) lang (h @ [HObject kvs]) = h @ [HObject (valued_props h kvs lang)]"
  using in_heap_h_lookup [OF assms, of "''values''"]
  by (simp add: localizeValues_h_def valued_props_def h_get_field h_get_append h_write_copy
      h_isArray_append)

lemma localizeValidation_h_copy:
  assumes "closed_heap h" "list_all (in_heap h) (map snd kvs)"
  shows "localizeValidation_h (length h) lang (h @ [HObject kvs]) =
     (if translated_message h kvs
      then h @ [HObject (h_update kvs ''validation'' (HRef (Suc (length h)))),
                HObject (validation_props h kvs lang)]
      else h @ [HObject kvs])"
proof -
  have v: "in_heap h (h_lookup kvs ''validation'')"
    using assms(2) by (rule in_heap_h_lookup)
  have e: "in_heap h (h_get h (h_lookup kvs ''validation'') ''errorMessage'')"
    using assms(1) v by (rule in_heap_h_get)
  have w: "h_write ((h @ [HObject kvs]) @ [obj]) (length h) k x
      = h @ [HObject (h_update kvs k x), obj]" for obj k x
    using h_write_copy [of h kvs "[obj]" k x] by simp
  show ?thesis
    using v e
    by (simp add: localizeValidation_h_def translated_message_def validation_props_def
        h_get_field h_get_append h_spread_append alloc_def w del: append_assoc)
qed

lemma in_heap_labelled:
  assumes "closed_heap h" "list_all (in_heap h) (map snd kvs)"
  shows "list_all (in_heap h) (map snd (labelled_props h kvs lang))"
  using assms in_heap_h_get [OF assms(1) in_heap_h_lookup [OF assms(2)]]
  by (simp add: labelled_props_def list_all_h_update)

lemma in_heap_valued:
  assumes "closed_heap h" "list_all (in_heap h) (map snd kvs)"
  shows "list_all (in_heap h) (map snd (valued_props h kvs lang))"
  using assms in_heap_h_get [OF assms(1) in_heap_h_lookup [OF assms(2)]]
  by (simp add: valued_props_def list_all_h_update)

lemma localizeField_h_normal:
  assumes "closed_heap h" "in_heap h raw"
  shows "localizeField_h fname raw lang h =
     (if label_unresolved h (h_spread h raw) lang
      then (h @ [HObject (h_spread h raw)], Inl (missing_label fname lang))
      else if translated_message h (valued_props h (labelled_props h (h_spread h raw) lang) lang)
      then (h @ [HObject (h_update (valued_props h (labelled_props h (h_spread h raw) lang) lang)
                            ''validation'' (HRef (Suc (length h)))),
                 HObject (validation_props h
                            (valued_props h (labelled_props h (h_spread h raw) lang) lang) lang)],
            Inr (length h))
      else (h @ [HObject (valued_props h (labelled_props h (h_spread h raw) lang) lang)],
            Inr (length h)))"
proof -
  have k0: "list_all (in_heap h) (map snd (h_spread h raw))"
    using assms by (rule in_heap_h_spread)
  have k1: "list_all (in_heap h) (map snd (labelled_props h (h_spread h raw) lang))"
    using assms(1) k0 by (rule in_heap_labelled)
  have k2: "list_all (in_heap h)
      (map snd (valued_props h (labelled_props h (h_spread h raw) lang) lang))"
    using assms(1) k1 by (rule in_heap_valued)
  show ?thesis
    by (simp add: localizeField_h_def alloc_def h_label_missing_copy [OF k0]
        localizeLabel_h_copy [OF k0] localizeValues_h_copy [OF k1]
        localizeValidation_h_copy [OF assms(1) k2])
qed

lemma js_get_reify_same:
  assumes "complete n h v"
  shows "js_get (reify n h v) k = reify n h (h_get h v k) \<and> complete n h (h_get h v k)"
proof (cases n)
  case 0
  with assms have leaf: "\<forall>a. v \<noteq> HRef a" by (cases v) simp_all
  from h_get_member [of v h k] leaf have "\<forall>a. h_get h v k \<noteq> HRef a" by blast
  from complete_leaf [OF this] js_get_reify_leaf [OF leaf] show ?thesis by simp
next
  case (Suc m)
  with assms have c: "complete (Suc m) h v" by simp
  from complete_Suc [OF complete_h_get [OF c, of k]] js_get_reify [OF c, of k] Suc
  show ?thesis by simp
qed

lemma complete_lookup:
  assumes "list_all (complete n h) (map snd kvs)"
  shows "complete n h (h_lookup kvs k)"
  using assms by (rule complete_h_lookup)

lemma label_missing_reify:
  assumes "list_all (complete n h) (map snd kvs)"
  shows "label_missing (map (reify_kv n h) kvs) lang = label_unresolved h kvs lang"
proof -
  have c: "complete n h (h_lookup kvs ''label'')" using assms by (rule complete_lookup)
  from js_get_reify_same [OF c, of lang] show ?thesis
    by (simp add: label_missing_def label_unresolved_def get_prop_map_reify
        truthy_reify [OF c] typeof_object_reify [OF c] truthy_reify)
qed

lemma localizeLabel_reify:
  assumes "list_all (complete n h) (map snd kvs)"
  shows "localizeLabel (map (reify_kv n h) kvs) lang = map (reify_kv n h) (labelled_props h kvs lang)
    \<and> list_all (complete n h) (map snd (labelled_props h kvs lang))"
proof -
  have c: "complete n h (h_lookup kvs ''label'')" using assms by (rule complete_lookup)
  from js_get_reify_same [OF c, of lang] assms show ?thesis
    by (simp add: localizeLabel_def labelled_props_def get_prop_map_reify
        typeof_object_reify [OF c] set_prop_map_reify list_all_h_update)
qed

lemma localizeValues_reify:
  assumes "list_all (complete n h) (map snd kvs)"
  shows "localizeValues (map (reify_kv n h) kvs) lang = map (reify_kv n h) (valued_props h kvs lang)
    \<and> list_all (complete n h) (map snd (valued_props h kvs lang))"
proof -
  have c: "complete n h (h_lookup kvs ''values'')" using assms by (rule complete_lookup)
  from js_get_reify_same [OF c, of lang] assms show ?thesis
    by (simp add: localizeValues_def valued_props_def get_prop_map_reify
        typeof_object_reify [OF c] truthy_reify [OF c] isArray_reify [OF c]
        set_prop_map_reify list_all_h_update)
qed

lemma localizeValidation_reify:
  assumes "list_all (complete (Suc m) h) (map snd kvs)"
  shows "localizeValidation (map (reify_kv (Suc m) h) kvs) lang =
     (if translated_message h kvs
      then set_prop (map (reify_kv (Suc m) h) kvs) ''validation''
             (JObj (map (reify_kv m h) (validation_props h kvs lang)))
      else map (reify_kv (Suc m) h) kvs)"
proof -
  let ?vv = "h_lookup kvs ''validation''"
  let ?em = "h_get h ?vv ''errorMessage''"
  have cv: "complete (Suc m) h ?vv" using assms by (rule complete_lookup)
  have ce: "complete m h ?em" using cv by (rule complete_h_get)
  have ce': "complete (Suc m) h ?em" using complete_Suc [OF ce] by simp
  have g: "js_get (reify (Suc m) h ?vv) ''errorMessage'' = reify (Suc m) h ?em"
    using js_get_reify_same [OF cv, of "''errorMessage''"] by simp
  have em_eq: "reify (Suc m) h ?em = reify m h ?em"
    using complete_Suc [OF ce] by simp
  have x: "js_get (reify m h ?em) lang = reify m h (h_get h ?em lang)"
    using js_get_reify_same [OF ce, of lang] by simp
  have sp: "spread (reify (Suc m) h ?vv) = map (reify_kv m h) (h_spread h ?vv)"
    using cv by (rule spread_reify)
  show ?thesis
    by (simp add: localizeValidation_def translated_message_def validation_props_def
        get_prop_map_reify g truthy_reify [OF ce] typeof_object_reify [OF ce]
        em_eq x sp set_prop_map_reify)
qed

lemma complete_h_spread:
  assumes "complete (Suc n) h v"
  shows "list_all (complete n h) (map snd (h_spread h v))"
proof (cases v)
  case (HRef a)
  with assms have a: "a < length h" and m: "list_all (complete n h) (members (h ! a))" by simp_all
  show ?thesis
  proof (cases "h ! a")
    case (HObject kvs)
    with HRef a m show ?thesis by (simp add: h_spread_def)
  next
    case (HArray xs)
    have "set (map snd (zip (map show_nat [0..<length xs]) xs)) \<subseteq> set xs"
      by (auto dest: set_zip_rightD)
    with HRef a m HArray show ?thesis by (auto simp: h_spread_def list_all_iff)
  qed
next
  case (HStr s)
  have "\<And>w. w \<in> set (map snd (zip (map show_nat [0..<length s]) (map (\<lambda>c. HStr [c]) s)))
      \<Longrightarrow> complete n h w"
    by (auto dest!: set_zip_rightD)
  with HStr show ?thesis by (simp add: h_spread_def list_all_iff)
qed (simp_all add: h_spread_def)

lemma map_reify_append:
  assumes "closed_heap h" "list_all (in_heap h) (map snd kvs)"
  shows "map (reify_kv n (h @ ext)) kvs = map (reify_kv n h) kvs"
  using assms(2) reify_append [OF assms(1)]
  by (simp add: reify_kv_def list_all_iff)

lemma in_heap_validation_props:
  assumes "closed_heap h" "list_all (in_heap h) (map snd kvs)"
  shows "list_all (in_heap h) (map snd (validation_props h kvs lang))"
proof -
  have v: "in_heap h (h_lookup kvs ''validation'')"
    using assms(2) by (rule in_heap_h_lookup)
  have e: "in_heap h (h_get h (h_lookup kvs ''validation'') ''errorMessage'')"
    using assms(1) v by (rule in_heap_h_get)
  have x: "in_heap h (h_get h (h_get h (h_lookup kvs ''validation'') ''errorMessage'') lang)"
    using assms(1) e by (rule in_heap_h_get)
  from in_heap_h_spread [OF assms(1) v] x show ?thesis
    by (simp add: validation_props_def list_all_h_update)
qed

text \<open>The localizer on the store computes what the localizer on values does: it
  throws the same error or returns the address of an object that reads as the
  localized record.\<close>

lemma localizeField_h_agrees:
  assumes "closed_heap h" "in_heap h raw" "complete (Suc (Suc m)) h raw"
  shows "case localizeField_h fname raw lang h of
           (h', Inl e) \<Rightarrow> localizeField fname (reify (Suc (Suc m)) h raw) lang = Inl e
         | (h', Inr field) \<Rightarrow>
             localizeField fname (reify (Suc (Suc m)) h raw) lang
               = Inr (spread (reify (Suc (Suc m)) h' (HRef field)))"
proof -
  let ?n = "Suc m"
  let ?kvs = "h_spread h raw"
  let ?kvs1 = "labelled_props h ?kvs lang"
  let ?kvs2 = "valued_props h ?kvs1 lang"
  let ?vprops = "validation_props h ?kvs2 lang"
  have i0: "list_all (in_heap h) (map snd ?kvs)"
    using assms(1,2) by (rule in_heap_h_spread)
  have i1: "list_all (in_heap h) (map snd ?kvs1)"
    using assms(1) i0 by (rule in_heap_labelled)
  have i2: "list_all (in_heap h) (map snd ?kvs2)"
    using assms(1) i1 by (rule in_heap_valued)
  have iv: "list_all (in_heap h) (map snd ?vprops)"
    using assms(1) i2 by (rule in_heap_validation_props)
  have c0: "list_all (complete ?n h) (map snd ?kvs)"
    using assms(3) by (rule complete_h_spread)
  from localizeLabel_reify [OF c0, of lang]
  have l1: "localizeLabel (map (reify_kv ?n h) ?kvs) lang = map (reify_kv ?n h) ?kvs1"
    and c1: "list_all (complete ?n h) (map snd ?kvs1)" by simp_all
  from localizeValues_reify [OF c1, of lang]
  have l2: "localizeValues (map (reify_kv ?n h) ?kvs1) lang = map (reify_kv ?n h) ?kvs2"
    and c2: "list_all (complete ?n h) (map snd ?kvs2)" by simp_all
  have sp: "spread (reify (Suc ?n) h raw) = map (reify_kv ?n h) ?kvs"
    using assms(3) by (rule spread_reify)
  have vside: "localizeField fname (reify (Suc ?n) h raw) lang =
     (if label_unresolved h ?kvs lang then Inl (missing_label fname lang)
      else Inr (if translated_message h ?kvs2
                then set_prop (map (reify_kv ?n h) ?kvs2) ''validation''
                       (JObj (map (reify_kv m h) ?vprops))
                else map (reify_kv ?n h) ?kvs2))"
    by (simp add: localizeField_def Let_def sp label_missing_reify [OF c0] l1 l2
        localizeValidation_reify [OF c2])
  show ?thesis
  proof (cases "label_unresolved h ?kvs lang")
    case True
    then show ?thesis
      by (simp add: localizeField_h_normal [OF assms(1,2)] vside)
  next
    case False
    show ?thesis
    proof (cases "translated_message h ?kvs2")
      case no: False
      let ?h' = "h @ [HObject ?kvs2]"
      have "spread (reify (Suc ?n) ?h' (HRef (length h))) = map (reify_kv ?n ?h') ?kvs2"
        by (simp add: reify_kv_def [abs_def])
      also have "\<dots> = map (reify_kv ?n h) ?kvs2"
        using assms(1) i2 by (rule map_reify_append)
      finally show ?thesis
        using False no by (simp add: localizeField_h_normal [OF assms(1,2)] vside)
    next
      case yes: True
      let ?kvs3 = "h_update ?kvs2 ''validation'' (HRef (Suc (length h)))"
      let ?h' = "h @ [HObject ?kvs3, HObject ?vprops]"
      have new: "reify ?n ?h' (HRef (Suc (length h))) = JObj (map (reify_kv m h) ?vprops)"
        using map_reify_append [OF assms(1) iv, of m "[HObject ?kvs3, HObject ?vprops]"]
        by (simp add: nth_append reify_kv_def [abs_def])
      have "spread (reify (Suc ?n) ?h' (HRef (length h))) = map (reify_kv ?n ?h') ?kvs3"
        by (simp add: nth_append reify_kv_def [abs_def])
      also have "\<dots> = set_prop (map (reify_kv ?n ?h') ?kvs2) ''validation''
          (reify ?n ?h' (HRef (Suc (length h))))"
        by (simp only: set_prop_map_reify)
      also have "map (reify_kv ?n ?h') ?kvs2 = map (reify_kv ?n h) ?kvs2"
        using assms(1) i2 by (rule map_reify_append)
      finally have "spread (reify (Suc ?n) ?h' (HRef (length h)))
          = set_prop (map (reify_kv ?n h) ?kvs2) ''validation'' (JObj (map (reify_kv m h) ?vprops))"
        by (simp only: new)
      then show ?thesis
        using False yes by (simp add: localizeField_h_normal [OF assms(1,2)] vside)
    qed
  qed
qed

section \<open>Properties of the hook\<close>

lemma example_parse_en:
  "parseYamlConfig example_parse ''fields'' ''en'' = Inr (example_fields ''First name'' ''Country'')"
  by code_simp

lemma example_parse_es:
  "parseYamlConfig example_parse ''fields'' ''es'' = Inr (example_fields ''Nombre'' ''Pais'')"
  by code_simp

lemma example_parse_fr:
  "parseYamlConfig example_parse ''fields'' ''fr'' = Inl (missing_label ''firstName'' ''fr'')"
  by code_simp

text \<open>C7. Whenever the second effect holds a document and so attempts a parse, it
  ends with \<open>loading = False\<close>. When the parse succeeds, \<open>fields\<close> is the new
  sequence and \<open>error\<close> is cleared. When the parse fails, \<open>error\<close> is set (to
  what was thrown, or to a generic error if that was no \<^verbatim>\<open>Error\<close>) and
  \<open>fields\<close> keeps its previous value.\<close>

theorem parse_attempt_outcome:
  assumes "fetchedYaml st = Some (yamlText, fetchedLang)"
  shows "loading (parseEffect yaml_parse DEFAULT_LOCALE st l) = False
    \<and> (\<forall>fds. parseYamlConfig yaml_parse yamlText (active_language DEFAULT_LOCALE l) = Inr fds \<longrightarrow>
          fields_st (parseEffect yaml_parse DEFAULT_LOCALE st l) = fds
          \<and> error (parseEffect yaml_parse DEFAULT_LOCALE st l) = None)
    \<and> (\<forall>e. parseYamlConfig yaml_parse yamlText (active_language DEFAULT_LOCALE l) = Inl e \<longrightarrow>
          error (parseEffect yaml_parse DEFAULT_LOCALE st l)
            = Some (if instanceof_Error e then e else Error ''Error parsing configuration'')
          \<and> fields_st (parseEffect yaml_parse DEFAULT_LOCALE st l) = fields_st st)"
  using assms by (simp add: parseEffect_def Let_def split: sum.split)

theorem parse_attempt_outcome_witness:
  "fetchedYaml cached_state = Some (''fields'', ''en'')
   \<and> loading (parseEffect example_parse ''en'' cached_state ''es'') = False
   \<and> fields_st (parseEffect example_parse ''en'' cached_state ''es'') = example_fields ''Nombre'' ''Pais''
   \<and> error (parseEffect example_parse ''en'' cached_state ''es'') = None
   \<and> loading (parseEffect example_parse ''en'' cached_state ''fr'') = False
   \<and> error (parseEffect example_parse ''en'' cached_state ''fr'') = Some (missing_label ''firstName'' ''fr'')
   \<and> fields_st (parseEffect example_parse ''en'' cached_state ''fr'') = example_fields ''First name'' ''Country''"
proof -
  have h: "fetchedYaml cached_state = Some (''fields'', ''en'')"
    by (simp add: cached_state_def)
  have es: "parseYamlConfig example_parse ''fields'' (active_language ''en'' ''es'')
      = Inr (example_fields ''Nombre'' ''Pais'')"
    using example_parse_es by (simp add: active_language_def)
  have fr: "parseYamlConfig example_parse ''fields'' (active_language ''en'' ''fr'')
      = Inl (missing_label ''firstName'' ''fr'')"
    using example_parse_fr by (simp add: active_language_def)
  have old: "fields_st cached_state = example_fields ''First name'' ''Country''"
    by (simp add: cached_state_def)
  show ?thesis
    using h old
      parse_attempt_outcome [OF h, of example_parse "''en''" "''es''"]
      parse_attempt_outcome [OF h, of example_parse "''en''" "''fr''"]
    by (simp add: es fr missing_label_def)
qed

lemma fetchEffect_request:
  "snd (fetchEffect DEFAULT_LOCALE st l)
     = (if fetchedYaml st = None then Some (configPath (active_language DEFAULT_LOCALE l)) else None)"
  by (simp add: fetchEffect_def Let_def)

lemma fetchEffect_fetchedYaml:
  "fetchedYaml (fst (fetchEffect DEFAULT_LOCALE st l)) = fetchedYaml st"
  by (simp add: fetchEffect_def Let_def)

lemma fetchEffect_cached:
  "fetchedYaml st \<noteq> None \<Longrightarrow> fetchEffect DEFAULT_LOCALE st l = (st, None)"
  by (simp add: fetchEffect_def Let_def)

lemma parseEffect_fetchedYaml:
  "fetchedYaml (parseEffect yaml_parse DEFAULT_LOCALE st l) = fetchedYaml st"
  by (simp add: parseEffect_def Let_def split: option.split sum.split)

lemma fetchSettled_fetchedYaml:
  "fetchedYaml st \<noteq> None \<Longrightarrow> fetchedYaml (fetchSettled st lang outcome) \<noteq> None"
  by (simp add: fetchSettled_def split: sum.split)

lemma step_request:
  "snd (step yaml_parse DEFAULT_LOCALE c (LanguageChanged l))
     = (if fetchedYaml (state c) = None
        then Some (configPath (active_language DEFAULT_LOCALE l)) else None)"
  using fetchEffect_request [of DEFAULT_LOCALE "state c" l]
  by (simp add: split_def Let_def)

lemma step_keeps_document:
  assumes "fetchedYaml (state c) \<noteq> None"
  shows "fetchedYaml (state (fst (step yaml_parse DEFAULT_LOCALE c ev))) \<noteq> None
    \<and> snd (step yaml_parse DEFAULT_LOCALE c ev) = None"
proof (cases ev)
  case (LanguageChanged l)
  with assms show ?thesis
    by (simp add: fetchEffect_cached parseEffect_fetchedYaml)
next
  case (FetchSettled lang outcome)
  with assms show ?thesis
    by (cases outcome) (simp_all add: parseEffect_fetchedYaml fetchSettled_fetchedYaml)
qed

lemma run_keeps_document:
  assumes "fetchedYaml (state c) \<noteq> None"
  shows "snd (run yaml_parse DEFAULT_LOCALE c evs) = []
    \<and> fetchedYaml (state (fst (run yaml_parse DEFAULT_LOCALE c evs))) \<noteq> None"
  using assms
proof (induction evs arbitrary: c)
  case Nil
  then show ?case by simp
next
  case (Cons ev evs)
  from step_keeps_document [OF Cons.prems, of yaml_parse DEFAULT_LOCALE ev]
  have k: "fetchedYaml (state (fst (step yaml_parse DEFAULT_LOCALE c ev))) \<noteq> None"
    and r: "snd (step yaml_parse DEFAULT_LOCALE c ev) = None" by simp_all
  from Cons.IH [OF k] r show ?case
    by (simp add: split_def)
qed

lemma step_success_stores:
  "fetchedYaml (state (fst (step yaml_parse DEFAULT_LOCALE c (FetchSettled lang (Inr yamlText)))))
     = Some (yamlText, lang)"
  by (simp add: parseEffect_fetchedYaml fetchSettled_def)

text \<open>C1, as the code has it. A language event asks the network for a document
  exactly when the controller holds none: the first effect returns at once when any
  document is held, whatever language it was fetched for. Hence once a request has
  settled with a document, no later event makes a request, neither for the language
  already fetched nor for any other.\<close>

theorem fetch_only_without_document:
  "snd (step yaml_parse DEFAULT_LOCALE c (LanguageChanged l))
     = (if fetchedYaml (state c) = None
        then Some (configPath (active_language DEFAULT_LOCALE l)) else None)
   \<and> snd (run yaml_parse DEFAULT_LOCALE
          (fst (step yaml_parse DEFAULT_LOCALE c (FetchSettled lang (Inr yamlText)))) evs) = []"
proof -
  have "fetchedYaml (state (fst (step yaml_parse DEFAULT_LOCALE c (FetchSettled lang (Inr yamlText)))))
      \<noteq> None"
    by (simp only: step_success_stores) simp
  from run_keeps_document [OF this] step_request show ?thesis by blast
qed

text \<open>After the document for \<^verbatim>\<open>en\<close> has arrived, a change to \<^verbatim>\<open>es\<close>,
  for which nothing was ever fetched, makes no request.\<close>

theorem fetch_other_language_counterexample:
  "snd (run example_parse ''en'' initial_controller
          [LanguageChanged ''en'', FetchSettled ''en'' (Inr ''fields'')])
     = [''/data/config/fields-en.yaml'']
   \<and> snd (step example_parse ''en''
          (fst (run example_parse ''en'' initial_controller
                  [LanguageChanged ''en'', FetchSettled ''en'' (Inr ''fields'')]))
          (LanguageChanged ''es'')) = None"
proof -
  have a: "snd (run example_parse ''en'' initial_controller
          [LanguageChanged ''en'', FetchSettled ''en'' (Inr ''fields'')])
     = [''/data/config/fields-en.yaml'']"
    by code_simp
  have b: "snd (step example_parse ''en''
          (fst (run example_parse ''en'' initial_controller
                  [LanguageChanged ''en'', FetchSettled ''en'' (Inr ''fields'')]))
          (LanguageChanged ''es'')) = None"
    by code_simp
  from a b show ?thesis by blast
qed

lemma step_cached_state:
  assumes "fetchedYaml (state c) \<noteq> None"
  shows "state (fst (step yaml_parse DEFAULT_LOCALE c (LanguageChanged l)))
     = parseEffect yaml_parse DEFAULT_LOCALE (state c) l"
  using assms by (simp add: fetchEffect_cached)

text \<open>C2. Once a raw document is held, a language event makes no request, and no
  later run of events makes one. The event parses the held text for the new
  language and ends with \<open>loading = False\<close>; when the parse succeeds,
  \<open>fields\<close> is its result and \<open>error\<close> is cleared. For a valid document
  that has the new language in its mappings the parse does succeed, and the labels
  of the published fields are those of the new language.\<close>

theorem language_change_reparses:
  assumes "fetchedYaml (state c) = Some (yamlText, fetchedLang)"
  shows "snd (step yaml_parse DEFAULT_LOCALE c (LanguageChanged l)) = None
    \<and> snd (run yaml_parse DEFAULT_LOCALE c evs) = []
    \<and> fetchedYaml (state (fst (step yaml_parse DEFAULT_LOCALE c (LanguageChanged l))))
        = Some (yamlText, fetchedLang)
    \<and> loading (state (fst (step yaml_parse DEFAULT_LOCALE c (LanguageChanged l)))) = False
    \<and> (\<forall>fds. parseYamlConfig yaml_parse yamlText (active_language DEFAULT_LOCALE l) = Inr fds
          \<longrightarrow> fields_st (state (fst (step yaml_parse DEFAULT_LOCALE c (LanguageChanged l)))) = fds
              \<and> error (state (fst (step yaml_parse DEFAULT_LOCALE c (LanguageChanged l)))) = None)
    \<and> (\<forall>D. yaml_parse yamlText = Inr (JObj D) \<and> valid_document D (active_language DEFAULT_LOCALE l)
          \<longrightarrow> parseYamlConfig yaml_parse yamlText (active_language DEFAULT_LOCALE l)
                = Inr (fields_st (state (fst (step yaml_parse DEFAULT_LOCALE c (LanguageChanged l)))))
              \<and> map (\<lambda>fd. JStr (label fd))
                    (fields_st (state (fst (step yaml_parse DEFAULT_LOCALE c (LanguageChanged l)))))
                  = map (\<lambda>entry. resolved_label (active_language DEFAULT_LOCALE l)
                                   (js_get (snd entry) ''label'')) D)"
proof -
  let ?c' = "fst (step yaml_parse DEFAULT_LOCALE c (LanguageChanged l))"
  let ?lang = "active_language DEFAULT_LOCALE l"
  from assms have cached: "fetchedYaml (state c) \<noteq> None" by simp
  have st: "state ?c' = parseEffect yaml_parse DEFAULT_LOCALE (state c) l"
    using cached by (rule step_cached_state)
  have a: "snd (step yaml_parse DEFAULT_LOCALE c (LanguageChanged l)) = None"
    using cached by (subst step_request) simp
  have b: "snd (run yaml_parse DEFAULT_LOCALE c evs) = []"
    using run_keeps_document [OF cached] by simp
  have k: "fetchedYaml (state ?c') = Some (yamlText, fetchedLang)"
    unfolding st using assms by (simp add: parseEffect_fetchedYaml)
  have ld: "loading (state ?c') = False"
    unfolding st using assms by (simp add: parseEffect_def Let_def split: sum.split)
  have ok: "fields_st (state ?c') = fds \<and> error (state ?c') = None"
    if "parseYamlConfig yaml_parse yamlText ?lang = Inr fds" for fds
    unfolding st using assms that by (simp add: parseEffect_def Let_def)
  have valid: "parseYamlConfig yaml_parse yamlText ?lang = Inr (fields_st (state ?c'))
      \<and> map (\<lambda>fd. JStr (label fd)) (fields_st (state ?c'))
          = map (\<lambda>entry. resolved_label ?lang (js_get (snd entry) ''label'')) D"
    if "yaml_parse yamlText = Inr (JObj D) \<and> valid_document D ?lang" for D
  proof -
    from that have p: "yaml_parse yamlText = Inr (JObj D)" and v: "valid_document D ?lang"
      by simp_all
    from parseYamlConfig_valid [of yaml_parse yamlText D ?lang, OF p v]
    obtain fds where fds: "mapFields ?lang D = Inr fds"
      and r: "parseYamlConfig yaml_parse yamlText ?lang = Inr fds" by blast
    from ok [OF r] r mapFields_attributes [OF fds] show ?thesis by simp
  qed
  from a b k ld ok valid show ?thesis by blast
qed

theorem language_change_reparses_witness:
  "fetchedYaml (state \<lparr>state = cached_state, language = ''en''\<rparr>) = Some (''fields'', ''en'')
   \<and> example_parse ''fields'' = Inr (JObj example_document)
   \<and> valid_document example_document ''es''
   \<and> snd (step example_parse ''en'' \<lparr>state = cached_state, language = ''en''\<rparr>
            (LanguageChanged ''es'')) = None
   \<and> fields_st (state (fst (step example_parse ''en'' \<lparr>state = cached_state, language = ''en''\<rparr>
            (LanguageChanged ''es'')))) = example_fields ''Nombre'' ''Pais''
   \<and> error (state (fst (step example_parse ''en'' \<lparr>state = cached_state, language = ''en''\<rparr>
            (LanguageChanged ''es'')))) = None
   \<and> loading (state (fst (step example_parse ''en'' \<lparr>state = cached_state, language = ''en''\<rparr>
            (LanguageChanged ''es'')))) = False"
proof -
  let ?c = "\<lparr>state = cached_state, language = ''en''\<rparr>"
  have h: "fetchedYaml (state ?c) = Some (''fields'', ''en'')"
    by (simp add: cached_state_def)
  have p: "example_parse ''fields'' = Inr (JObj example_document)"
    by (simp add: example_parse_def)
  have v: "valid_document example_document ''es''"
    by code_simp
  have es: "parseYamlConfig example_parse ''fields'' (active_language ''en'' ''es'')
      = Inr (example_fields ''Nombre'' ''Pais'')"
    using example_parse_es by (simp add: active_language_def)
  from language_change_reparses [of ?c "''fields''" "''en''" example_parse "''en''" "''es''" "[]", OF h]
    es h p v
  show ?thesis by simp
qed

text \<open>C8, as the code has it. What a failed fetch or a failed parse surfaces in
  \<open>error\<close> is the thrown value itself when it is an instance of
  \<^verbatim>\<open>Error\<close>, of whatever class, and a generic \<^verbatim>\<open>Error\<close> with a fixed
  message when it is not. Every failure sets \<open>error\<close>, always to an instance
  of \<^verbatim>\<open>Error\<close>.\<close>

theorem thrown_values_surfaced:
  assumes "fetchedYaml st = Some (yamlText, fetchedLang)"
    and "parseYamlConfig yaml_parse yamlText (active_language DEFAULT_LOCALE l) = Inl e"
  shows "error (parseEffect yaml_parse DEFAULT_LOCALE st l)
        = Some (if instanceof_Error e then e else Error ''Error parsing configuration'')
    \<and> error (fetchSettled st' lang (Inl e'))
        = Some (if instanceof_Error e' then e' else Error ''Unknown error loading configuration'')
    \<and> (\<exists>x. error (parseEffect yaml_parse DEFAULT_LOCALE st l) = Some x \<and> instanceof_Error x)
    \<and> (\<exists>x. error (fetchSettled st' lang (Inl e')) = Some x \<and> instanceof_Error x)"
  using assms by (simp add: parseEffect_def fetchSettled_def Let_def)

theorem thrown_values_surfaced_witness:
  "fetchedYaml cached_state = Some (''fields'', ''en'')
   \<and> parseYamlConfig throwing_parse ''fields'' (active_language ''en'' ''es'')
       = Inl (NonError (JStr ''boom''))
   \<and> error (parseEffect throwing_parse ''en'' cached_state ''es'')
       = Some (Error ''Error parsing configuration'')
   \<and> error (fetchSettled initial_state ''en'' (Inl (NonError JNull)))
       = Some (Error ''Unknown error loading configuration'')
   \<and> error (fetchSettled initial_state ''en'' (Inl (LibraryError ''RestAPIError'' ''Failed to fetch'')))
       = Some (LibraryError ''RestAPIError'' ''Failed to fetch'')"
proof -
  have h: "fetchedYaml cached_state = Some (''fields'', ''en'')"
    by (simp add: cached_state_def)
  have t: "parseYamlConfig throwing_parse ''fields'' (active_language ''en'' ''es'')
       = Inl (NonError (JStr ''boom''))"
    by (simp add: parseYamlConfig_def throwing_parse_def)
  from thrown_values_surfaced [OF h t, of initial_state "''en''" "NonError JNull"]
    thrown_values_surfaced [OF h t, of initial_state "''en''" "LibraryError ''RestAPIError'' ''Failed to fetch''"]
    h t
  show ?thesis by simp
qed

text \<open>An empty text parses to \<^verbatim>\<open>null\<close>, whose entries cannot be enumerated:
  the \<^verbatim>\<open>TypeError\<close>, neither a network nor a configuration error, is surfaced
  as it is.\<close>

theorem thrown_values_counterexample:
  "parseYamlConfig empty_parse [] ''en''
     = Inl (TypeError ''Cannot convert undefined or null to object'')
   \<and> error (state (fst (run empty_parse ''en'' initial_controller
                [LanguageChanged ''en'', FetchSettled ''en'' (Inr [])])))
       = Some (TypeError ''Cannot convert undefined or null to object'')"
proof -
  have a: "parseYamlConfig empty_parse [] ''en''
     = Inl (TypeError ''Cannot convert undefined or null to object'')"
    by code_simp
  have b: "error (state (fst (run empty_parse ''en'' initial_controller
                [LanguageChanged ''en'', FetchSettled ''en'' (Inr [])])))
       = Some (TypeError ''Cannot convert undefined or null to object'')"
    by code_simp
  from a b show ?thesis by blast
qed

end
